theory Spec2Isabelle
  imports Main "HOL-Library.Char_ord" "HOL-Library.List_Lexorder" "HOL-Library.Sublist"
begin

section \<open>Dependency Detective: the program\<close>

text \<open>
  The embedding follows \<^verbatim>\<open>dependency_detective.py\<close>. Python strings are \<open>string\<close>
  (bytes, so the text is ASCII or UTF-8), Python sets of strings are \<open>string set\<close>,
  dictionaries from strings to strings are maps \<open>string \<rightharpoonup> string\<close>, and a function that
  returns \<^verbatim>\<open>None\<close> or a string returns a \<open>string option\<close>. What the program takes
  from its platform is an argument of the model: the parser \<^verbatim>\<open>ast.parse\<close>, the tree of
  files below a directory, the outcome of every subprocess, the answer of the package index
  and the line typed at the prompt. Calls to \<^verbatim>\<open>logging\<close> and to the console leave
  no trace in the values computed and are left out.
\<close>

subsection \<open>Exceptions\<close>

text \<open>
  The exceptions the modelled calls raise. Every one of them is a subclass of
  \<^verbatim>\<open>Exception\<close>; \<open>IsADirectoryError\<close>, \<open>FileNotFoundError\<close> and \<open>PermissionError\<close>
  are subclasses of \<^verbatim>\<open>OSError\<close>. \<^verbatim>\<open>input\<close> raises \<open>EOFError\<close> at the end of the
  input.
\<close>

datatype py_exc =
    SyntaxError | ValueError | RecursionError
  | IsADirectoryError | FileNotFoundError | PermissionError
  | CalledProcessError | JSONDecodeError | EOFError

subsection \<open>Methods of dictionaries and strings\<close>

text \<open>
  \<^verbatim>\<open>d.get(k, default)\<close> on a dictionary.
\<close>

definition dict_get :: "('k \<rightharpoonup> 'v) \<Rightarrow> 'k \<Rightarrow> 'v \<Rightarrow> 'v" where
  "dict_get d k dflt = (case d k of Some v \<Rightarrow> v | None \<Rightarrow> dflt)"

text \<open>
  \<^verbatim>\<open>s.split(sep)\<close> for a separator of one character: the pieces between the
  separators, at least one piece (so the last case of the inner \<open>case\<close> never occurs).
\<close>

fun str_split :: "char \<Rightarrow> string \<Rightarrow> string list" where
  "str_split sep [] = [[]]"
| "str_split sep (c # cs) =
     (if c = sep then [] # str_split sep cs
      else (case str_split sep cs of
              part # parts \<Rightarrow> (c # part) # parts
            | [] \<Rightarrow> [[c]]))"

text \<open>\<^verbatim>\<open>s.endswith(ending)\<close>, which is how the pattern \<^verbatim>\<open>*.py\<close> matches a name.\<close>

definition endswith :: "string \<Rightarrow> string \<Rightarrow> bool" where
  "endswith s ending =
     (length ending \<le> length s \<and> drop (length s - length ending) s = ending)"

text \<open>
  \<^verbatim>\<open>s.lower()\<close> on ASCII text (package names are ASCII): the letters A to Z become a
  to z, every other character stays.
\<close>

definition lower_char :: "char \<Rightarrow> char" where
  "lower_char c =
     (case map_of (zip ''ABCDEFGHIJKLMNOPQRSTUVWXYZ'' ''abcdefghijklmnopqrstuvwxyz'') c of
        Some l \<Rightarrow> l
      | None \<Rightarrow> c)"

definition lower :: "string \<Rightarrow> string" where
  "lower s = map lower_char s"

text \<open>\<^verbatim>\<open>s.strip()\<close>: the ASCII whitespace of Python at both ends is removed.\<close>

definition isspace :: "char \<Rightarrow> bool" where
  "isspace c = (c \<in> {CHR '' '', CHR 0x09, CHR 0x0A, CHR 0x0B, CHR 0x0C, CHR 0x0D,
                     CHR 0x1C, CHR 0x1D, CHR 0x1E, CHR 0x1F})"

definition strip :: "string \<Rightarrow> string" where
  "strip s = rev (dropWhile isspace (rev (dropWhile isspace s)))"

text \<open>
  \<^verbatim>\<open>s.rfind(c)\<close>: the highest index of \<open>c\<close> in \<open>s\<close>, or \<open>-1\<close>.
\<close>

fun rfind :: "string \<Rightarrow> char \<Rightarrow> int" where
  "rfind [] c = - 1"
| "rfind (x # xs) c =
     (let r = rfind xs c in
      if 0 \<le> r then r + 1 else if x = c then 0 else - 1)"

text \<open>A truth test on \<^verbatim>\<open>None\<close> or a string: \<^verbatim>\<open>None\<close> and \<^verbatim>\<open>''\<close> are false.\<close>

definition truthy :: "string option \<Rightarrow> bool" where
  "truthy v = (case v of None \<Rightarrow> False | Some s \<Rightarrow> s \<noteq> [])"

subsection \<open>The syntax tree of a Python file\<close>

text \<open>
  Of the classes of \<^verbatim>\<open>ast\<close>, \<open>Import\<close> (with its \<^verbatim>\<open>names\<close>),
  \<open>ImportFrom\<close> (with \<^verbatim>\<open>module\<close>, \<^verbatim>\<open>names\<close> and \<^verbatim>\<open>level\<close>) and
  \<^verbatim>\<open>alias\<close> are kept; \<open>Other\<close> is a node of any other class with its child nodes
  (a module, a function or class definition, an \<^verbatim>\<open>if\<close>, an expression).
\<close>

datatype ast_alias = Alias (alias_name: string) (asname: "string option")

datatype node =
    Import "ast_alias list"
  | ImportFrom "string option" "ast_alias list" nat
  | AliasNode ast_alias
  | Other "node list"

fun iter_child_nodes :: "node \<Rightarrow> node list" where
  "iter_child_nodes (Import names) = map AliasNode names"
| "iter_child_nodes (ImportFrom module names level) = map AliasNode names"
| "iter_child_nodes (AliasNode a) = []"
| "iter_child_nodes (Other children) = children"

text \<open>The number of nodes of a tree, by which the walk is shown to end.\<close>

fun node_count :: "node \<Rightarrow> nat" where
  "node_count (Import names) = Suc (length names)"
| "node_count (ImportFrom module names level) = Suc (length names)"
| "node_count (AliasNode a) = 1"
| "node_count (Other children) = Suc (sum_list (map node_count children))"

text \<open>
  \<^verbatim>\<open>ast.walk(node)\<close> takes nodes from the front of a queue and appends their children
  at its back:
  \<^verbatim>\<open>
  todo = deque([node])
  while todo:
      node = todo.popleft()
      todo.extend(iter_child_nodes(node))
      yield node
  \<close>
  \<open>walk todo\<close> is the list of nodes yielded from the queue \<open>todo\<close>. It ends because the
  nodes in and below the queue get fewer.
\<close>

function walk :: "node list \<Rightarrow> node list" where
  "walk [] = []"
| "walk (node # todo) = node # walk (todo @ iter_child_nodes node)"
  by pat_completeness auto
termination
proof (relation "measure (\<lambda>todo. sum_list (map node_count todo))")
  show "wf (measure (\<lambda>todo. sum_list (map node_count todo)))" by simp
next
  fix node :: node and todo :: "node list"
  have "sum_list (map node_count (iter_child_nodes node)) < node_count node"
    by (cases node) (simp_all add: comp_def sum_list_triv)
  then show "(todo @ iter_child_nodes node, node # todo)
      \<in> measure (\<lambda>todo. sum_list (map node_count todo))"
    by simp
qed

subsection \<open>The files below a directory\<close>

text \<open>
  An entry of a directory is a regular file with its name and text, a directory with its
  name and entries, or a symbolic link that points nowhere. A path is the list of its
  \<^verbatim>\<open>parts\<close>; the entry found at the path is passed along with it.
\<close>

datatype entry = File string string | Dir string "entry list" | BrokenLink string

fun entry_name :: "entry \<Rightarrow> string" where
  "entry_name (File n text) = n"
| "entry_name (Dir n children) = n"
| "entry_name (BrokenLink n) = n"

fun is_dir :: "entry \<Rightarrow> bool" where
  "is_dir (Dir n children) = True"
| "is_dir e = False"

fun is_file :: "entry \<Rightarrow> bool" where
  "is_file (File n text) = True"
| "is_file e = False"

fun iterdir :: "entry \<Rightarrow> entry list" where
  "iterdir (Dir n children) = children"
| "iterdir e = []"

text \<open>\<open>child entries n\<close> is the path \<^verbatim>\<open>directory / n\<close>: the entry of that name, if any.\<close>

definition child :: "entry list \<Rightarrow> string \<Rightarrow> entry option" where
  "child entries n = find (\<lambda>e. entry_name e = n) entries"

fun path_exists :: "entry option \<Rightarrow> bool" where
  "path_exists None = False"
| "path_exists (Some (BrokenLink n)) = False"
| "path_exists (Some e) = True"

text \<open>
  \<^verbatim>\<open>open(file_path, 'r', encoding='utf-8', errors='ignore')\<close> and \<^verbatim>\<open>f.read()\<close>.
\<close>

fun open_read :: "entry \<Rightarrow> py_exc + string" where
  "open_read (File n text) = Inr text"
| "open_read (Dir n children) = Inl IsADirectoryError"
| "open_read (BrokenLink n) = Inl FileNotFoundError"

text \<open>\<^verbatim>\<open>Path.name\<close>, \<^verbatim>\<open>Path.suffix\<close> and \<^verbatim>\<open>Path.stem\<close>, as \<^verbatim>\<open>pathlib\<close> defines them
  with \<^verbatim>\<open>name.rfind('.')\<close>: a dot at the start or at the end of a name starts no suffix.\<close>

definition path_name :: "string list \<Rightarrow> string" where
  "path_name parts = (if parts = [] then [] else last parts)"

definition path_suffix :: "string \<Rightarrow> string" where
  "path_suffix name =
     (let i = rfind name CHR ''.'' in
      if 0 < i \<and> i < int (length name) - 1 then drop (nat i) name else [])"

definition path_stem :: "string \<Rightarrow> string" where
  "path_stem name =
     (let i = rfind name CHR ''.'' in
      if 0 < i \<and> i < int (length name) - 1 then take (nat i) name else name)"

text \<open>
  \<^verbatim>\<open>directory.rglob('*.py')\<close>: every entry at any depth below the directory whose name
  ends in \<^verbatim>\<open>.py\<close> (in this case of the letters, as on POSIX), with its path. The first
  argument is the path of the directory, the second its entries.
\<close>

fun rglob_py :: "string list \<Rightarrow> entry list \<Rightarrow> (string list \<times> entry) list" where
  "rglob_py directory [] = []"
| "rglob_py directory (Dir n children # entries) =
     (if endswith n ''.py'' then [(directory @ [n], Dir n children)] else [])
     @ rglob_py (directory @ [n]) children
     @ rglob_py directory entries"
| "rglob_py directory (e # entries) =
     (if endswith (entry_name e) ''.py'' then [(directory @ [entry_name e], e)] else [])
     @ rglob_py directory entries"

subsection \<open>\<^verbatim>\<open>find_local_imports\<close>\<close>

text \<open>
  \<^verbatim>\<open>
  def find_local_imports(project_root):
      local_imports = set()
      scan_paths = [project_root]
      src_path = project_root / "src"
      if src_path.is_dir():
          scan_paths.append(src_path)
      for path in scan_paths:
          for item in path.iterdir():
              if item.is_dir() and (item / "__init__.py").exists():
                  local_imports.add(item.name)
              elif item.is_file() and item.suffix == '.py':
                  local_imports.add(item.stem)
      return local_imports
  \<close>
  \<open>scan_item\<close> is the body of the inner loop. The project root is a directory (the working
  directory or one above it), given by its entries.
\<close>

definition scan_item :: "entry \<Rightarrow> string set \<Rightarrow> string set" where
  "scan_item item local_imports =
     (if is_dir item \<and> path_exists (child (iterdir item) ''__init__.py'')
      then insert (entry_name item) local_imports
      else if is_file item \<and> path_suffix (entry_name item) = ''.py''
      then insert (path_stem (entry_name item)) local_imports
      else local_imports)"

definition find_local_imports :: "entry list \<Rightarrow> string set" where
  "find_local_imports project_root =
     (let local_imports = {};
          scan_paths = [project_root];
          src_path = child project_root ''src'';
          scan_paths =
            (case src_path of
               Some (Dir n children) \<Rightarrow> scan_paths @ [children]
             | _ \<Rightarrow> scan_paths)
      in fold (\<lambda>path acc. fold scan_item path acc) scan_paths local_imports)"

subsection \<open>\<^verbatim>\<open>get_installed_packages\<close>\<close>

text \<open>
  \<^verbatim>\<open>
  def get_installed_packages(python_exe):
      cmd = [python_exe, '-m', 'pip', 'list', '--format=json']
      try:
          output = subprocess.check_output(cmd, ...)
          packages = json.loads(output)
          return {pkg['name'].lower(): pkg['version'] for pkg in packages}
      except (subprocess.CalledProcessError, FileNotFoundError, json.JSONDecodeError) as e:
          return {}
  \<close>
  The argument is what \<^verbatim>\<open>check_output\<close> and \<^verbatim>\<open>json.loads\<close> give: an exception, or
  the list that pip prints, one name and one version for each package. An exception of
  another class than the three leaves the function.
\<close>

definition get_installed_packages ::
  "py_exc + (string \<times> string) list \<Rightarrow> py_exc + (string \<rightharpoonup> string)" where
  "get_installed_packages pip_list =
     (case pip_list of
        Inr packages \<Rightarrow>
          Inr (fold (\<lambda>pkg d. d(lower (fst pkg) \<mapsto> snd pkg)) packages Map.empty)
      | Inl exc \<Rightarrow>
          if exc = CalledProcessError \<or> exc = FileNotFoundError \<or> exc = JSONDecodeError
          then Inr Map.empty
          else Inl exc)"

subsection \<open>\<^verbatim>\<open>get_latest_version\<close>\<close>

text \<open>
  \<^verbatim>\<open>
  def get_latest_version(package_name):
      try:
          url = f"https://pypi.org/pypi/{package_name}/json"
          response = requests.get(url, timeout=5)
          response.raise_for_status()
          data = response.json()
          return data.get("info", {}).get("version")
      except requests.exceptions.RequestException as e:
          return None
  \<close>
  \<^verbatim>\<open>requests.get\<close> raises a \<^verbatim>\<open>RequestException\<close> (no connection, or the time is over)
  or gives a response with its status code and body. The body is modelled as the index
  documents it: a JSON object of objects of strings, or no JSON at all (\<open>None\<close>), for which
  \<^verbatim>\<open>response.json()\<close> raises the \<^verbatim>\<open>JSONDecodeError\<close> of \<^verbatim>\<open>requests\<close>, a
  \<^verbatim>\<open>RequestException\<close> too. \<open>fetch_version\<close> is the body of the \<^verbatim>\<open>try\<close>.
\<close>

datatype request_exception = ConnectionError | Timeout | HTTPError | InvalidJSON

record response =
  status_code :: nat
  body :: "(string \<rightharpoonup> (string \<rightharpoonup> string)) option"

type_synonym http = "string \<Rightarrow> request_exception + response"

definition raise_for_status :: "response \<Rightarrow> request_exception + unit" where
  "raise_for_status r =
     (if 400 \<le> status_code r \<and> status_code r < 600 then Inl HTTPError else Inr ())"

definition response_json ::
  "response \<Rightarrow> request_exception + (string \<rightharpoonup> (string \<rightharpoonup> string))" where
  "response_json r = (case body r of None \<Rightarrow> Inl InvalidJSON | Some data \<Rightarrow> Inr data)"

definition pypi_url :: "string \<Rightarrow> string" where
  "pypi_url package_name = ''https://pypi.org/pypi/'' @ package_name @ ''/json''"

definition fetch_version :: "http \<Rightarrow> string \<Rightarrow> request_exception + string option" where
  "fetch_version requests_get package_name =
     (case requests_get (pypi_url package_name) of
        Inl exc \<Rightarrow> Inl exc
      | Inr r \<Rightarrow>
          (case raise_for_status r of
             Inl exc \<Rightarrow> Inl exc
           | Inr u \<Rightarrow>
               (case response_json r of
                  Inl exc \<Rightarrow> Inl exc
                | Inr data \<Rightarrow> Inr ((dict_get data ''info'' Map.empty) ''version''))))"

definition get_latest_version :: "http \<Rightarrow> string \<Rightarrow> string option" where
  "get_latest_version requests_get package_name =
     (case fetch_version requests_get package_name of
        Inr version \<Rightarrow> version
      | Inl exc \<Rightarrow> None)"

subsection \<open>\<^verbatim>\<open>extract_imports\<close>\<close>

text \<open>
  \<^verbatim>\<open>
  def extract_imports(file_path):
      imports = set()
      try:
          with open(file_path, 'r', encoding='utf-8', errors='ignore') as f:
              tree = ast.parse(f.read(), filename=str(file_path))
          for node in ast.walk(tree):
              if isinstance(node, ast.Import):
                  for name in node.names:
                      imports.add(name.name.split('.')[0])
              elif isinstance(node, ast.ImportFrom):
                  if node.level == 0 and node.module:
                      imports.add(node.module.split('.')[0])
      except SyntaxError as e:
          logging.warning(...)
      except Exception as e:
          logging.error(...)
      return imports
  \<close>
  \<open>parse\<close> is \<^verbatim>\<open>ast.parse\<close>. \<open>visit\<close> is the body of the loop over the nodes;
  \<^verbatim>\<open>split\<close> gives at least one piece, so \<^verbatim>\<open>[0]\<close> is its head. Reading and parsing
  come before the first \<^verbatim>\<open>add\<close>, and the loop raises nothing, so the set that a
  handler returns is the empty one the function starts with.
\<close>

type_synonym parser = "string \<Rightarrow> py_exc + node"

fun visit :: "node \<Rightarrow> string set \<Rightarrow> string set" where
  "visit (Import names) imports =
     fold (\<lambda>a acc. insert (hd (str_split CHR ''.'' (alias_name a))) acc) names imports"
| "visit (ImportFrom module names level) imports =
     (if level = 0 then
        (case module of
           None \<Rightarrow> imports
         | Some m \<Rightarrow> if m = [] then imports else insert (hd (str_split CHR ''.'' m)) imports)
      else imports)"
| "visit (AliasNode a) imports = imports"
| "visit (Other children) imports = imports"

definition read_and_parse :: "parser \<Rightarrow> entry \<Rightarrow> py_exc + node" where
  "read_and_parse parse file_path =
     (case open_read file_path of
        Inl exc \<Rightarrow> Inl exc
      | Inr text \<Rightarrow> parse text)"

definition extract_imports :: "parser \<Rightarrow> entry \<Rightarrow> string set" where
  "extract_imports parse file_path =
     (let imports = {} in
      case read_and_parse parse file_path of
        Inr tree \<Rightarrow> fold visit (walk [tree]) imports
      | Inl SyntaxError \<Rightarrow> imports
      | Inl exc \<Rightarrow> imports)"

subsection \<open>\<^verbatim>\<open>resolve_package\<close>\<close>

text \<open>
  \<^verbatim>\<open>
  def resolve_package(module, local_imports, blacklist, package_mappings):
      if module in local_imports:
          return None
      if module in blacklist:
          return None
      return package_mappings.get(module, module)
  \<close>
\<close>

definition resolve_package ::
  "string \<Rightarrow> string set \<Rightarrow> string set \<Rightarrow> (string \<rightharpoonup> string) \<Rightarrow> string option" where
  "resolve_package module local_imports blacklist package_mappings =
     (if module \<in> local_imports then None
      else if module \<in> blacklist then None
      else Some (dict_get package_mappings module module))"

subsection \<open>\<^verbatim>\<open>scan_directory\<close>\<close>

text \<open>
  \<^verbatim>\<open>
  def scan_directory(directory, project_root, blacklist, local_imports, script_name,
                     excluded_dirs, package_mappings):
      dependencies = set()
      for file_path in directory.rglob('*.py'):
          if file_path.name == script_name:
              continue
          if any(excluded in file_path.parts for excluded in excluded_dirs):
              continue
          imports = extract_imports(file_path)
          for module in imports:
              package = resolve_package(module, local_imports, blacklist, package_mappings)
              if package:
                  dependencies.add(package)
      return dependencies
  \<close>
  \<open>scan_file\<close> is the body of the loop over the files. The test \<^verbatim>\<open>if package:\<close> is
  false for \<^verbatim>\<open>None\<close> and for the empty string. \<open>tree\<close> holds the entries of the
  scanned directory and \<open>directory\<close> the parts of its path.
\<close>

definition scan_file ::
  "parser \<Rightarrow> string set \<Rightarrow> string set \<Rightarrow> string \<Rightarrow> string set \<Rightarrow> (string \<rightharpoonup> string)
     \<Rightarrow> string list \<times> entry \<Rightarrow> string set \<Rightarrow> string set" where
  "scan_file parse blacklist local_imports script_name excluded_dirs package_mappings
       file_path dependencies =
     (if path_name (fst file_path) = script_name then dependencies
      else if (\<exists>excluded \<in> excluded_dirs. excluded \<in> set (fst file_path)) then dependencies
      else
        dependencies \<union>
        (\<Union>module \<in> extract_imports parse (snd file_path).
           (case resolve_package module local_imports blacklist package_mappings of
              None \<Rightarrow> {}
            | Some package \<Rightarrow> if package \<noteq> [] then {package} else {})))"

definition scan_directory ::
  "parser \<Rightarrow> entry list \<Rightarrow> string list \<Rightarrow> string list \<Rightarrow> string set \<Rightarrow> string set \<Rightarrow> string
     \<Rightarrow> string set \<Rightarrow> (string \<rightharpoonup> string) \<Rightarrow> string set" where
  "scan_directory parse tree directory project_root blacklist local_imports script_name
       excluded_dirs package_mappings =
     fold (scan_file parse blacklist local_imports script_name excluded_dirs package_mappings)
       (rglob_py directory tree) {}"

subsection \<open>Subprocesses\<close>

text \<open>
  A subprocess ends with a return code, or it is not started at all (the interpreter is not
  found). The program starts three kinds of subprocess; \<open>command\<close> is the argument list of
  each. The platform is a function from the number of the call (0 for the first subprocess
  of the run) to its outcome, and the state of the run is the list of the subprocesses
  started so far. \<^verbatim>\<open>subprocess.check_call\<close> raises \<^verbatim>\<open>CalledProcessError\<close> on a
  return code other than zero.
\<close>

datatype proc_result = Exited nat | NotStarted

datatype action =
    CreateVenv string string
  | PipInstall string string
  | RunProject string string

fun command :: "action \<Rightarrow> string list" where
  "command (CreateVenv python venv_path) = [python, ''-m'', ''venv'', venv_path]"
| "command (PipInstall python dep) = [python, ''-m'', ''pip'', ''install'', dep]"
| "command (RunProject python project_file) = [python, project_file]"

type_synonym world = "nat \<Rightarrow> proc_result"

definition check_call :: "world \<Rightarrow> action \<Rightarrow> action list \<Rightarrow> (py_exc + unit) \<times> action list" where
  "check_call os a trace =
     ((case os (length trace) of
         Exited returncode \<Rightarrow> if returncode = 0 then Inr () else Inl CalledProcessError
       | NotStarted \<Rightarrow> Inl FileNotFoundError),
      trace @ [a])"

subsection \<open>\<^verbatim>\<open>install_dependencies\<close>\<close>

text \<open>
  \<^verbatim>\<open>
  def install_dependencies(missing_deps, python_exe):
      failed_installs = []
      for dep in missing_deps:
          try:
              cmd = [python_exe, '-m', 'pip', 'install', dep]
              subprocess.check_call(cmd, stdout=subprocess.DEVNULL, stderr=subprocess.DEVNULL)
          except subprocess.CalledProcessError:
              failed_installs.append(dep)
      return failed_installs
  \<close>
  \<open>install_loop\<close> is the loop, with \<^verbatim>\<open>failed_installs\<close> and the subprocesses started so
  far as its state. An exception of another class than \<^verbatim>\<open>CalledProcessError\<close> leaves
  the function.
\<close>

fun install_loop ::
  "world \<Rightarrow> string \<Rightarrow> string list \<Rightarrow> string list \<Rightarrow> action list
     \<Rightarrow> (py_exc + string list) \<times> action list" where
  "install_loop os python_exe [] failed_installs trace = (Inr failed_installs, trace)"
| "install_loop os python_exe (dep # deps) failed_installs trace =
     (case check_call os (PipInstall python_exe dep) trace of
        (Inr u, trace') \<Rightarrow> install_loop os python_exe deps failed_installs trace'
      | (Inl exc, trace') \<Rightarrow>
          if exc = CalledProcessError
          then install_loop os python_exe deps (failed_installs @ [dep]) trace'
          else (Inl exc, trace'))"

definition install_dependencies ::
  "world \<Rightarrow> string list \<Rightarrow> string \<Rightarrow> action list \<Rightarrow> (py_exc + string list) \<times> action list" where
  "install_dependencies os missing_deps python_exe trace =
     install_loop os python_exe missing_deps [] trace"

subsection \<open>\<^verbatim>\<open>generate_requirements_file\<close>\<close>

text \<open>
  \<^verbatim>\<open>
  def generate_requirements_file(dependencies, installed_packages):
      file_path = Path.cwd() / "requirements.txt"
      try:
          with open(file_path, "w") as f:
              sorted_deps = sorted(list(dependencies))
              for dep in sorted_deps:
                  version = installed_packages.get(dep.lower())
                  if not version:
                      version = get_latest_version(dep)
                  if version:
                      f.write(f"{dep}=={version}\n")
                  else:
                      f.write(f"{dep}\n")
      except IOError as e:
          logging.error(...)
  \<close>
  \<open>requirement_line\<close> is what one turn of the loop writes. The result is the list of the
  strings written, or \<open>None\<close> when the file cannot be opened (\<open>writable\<close> is false).
  \<^verbatim>\<open>sorted\<close> orders strings by their code points, as the order on \<open>string\<close> does.
\<close>

definition requirement_line :: "http \<Rightarrow> (string \<rightharpoonup> string) \<Rightarrow> string \<Rightarrow> string" where
  "requirement_line requests_get installed_packages dep =
     (let version = installed_packages (lower dep);
          version = (if \<not> truthy version then get_latest_version requests_get dep else version)
      in if truthy version then dep @ ''=='' @ the version @ [CHR 0x0A]
         else dep @ [CHR 0x0A])"

definition generate_requirements_file ::
  "http \<Rightarrow> bool \<Rightarrow> string set \<Rightarrow> (string \<rightharpoonup> string) \<Rightarrow> string list option" where
  "generate_requirements_file requests_get writable dependencies installed_packages =
     (if writable
      then Some (map (requirement_line requests_get installed_packages)
                   (sorted_list_of_set dependencies))
      else None)"

subsection \<open>\<^verbatim>\<open>run_project\<close> and \<^verbatim>\<open>run_in_temp_venv\<close>\<close>

text \<open>
  A run of the program ends with \<^verbatim>\<open>sys.exit(n)\<close>, with an exception that nothing
  catches, or with the return of \<^verbatim>\<open>main\<close>.
\<close>

datatype exit = Exit nat | Raised py_exc | Returned

text \<open>
  The handler \<^verbatim>\<open>except subprocess.CalledProcessError: ... sys.exit(1)\<close>; any other
  exception goes on.
\<close>

definition on_called_process_error :: "py_exc \<Rightarrow> exit" where
  "on_called_process_error exc = (if exc = CalledProcessError then Exit 1 else Raised exc)"

text \<open>
  \<^verbatim>\<open>
  def run_project(project_file, python_exe):
      try:
          subprocess.check_call([python_exe, project_file])
      except subprocess.CalledProcessError as e:
          sys.exit(1)
  \<close>
\<close>

definition run_project :: "world \<Rightarrow> string \<Rightarrow> string \<Rightarrow> action list \<Rightarrow> exit \<times> action list" where
  "run_project os project_file python_exe trace =
     (case check_call os (RunProject python_exe project_file) trace of
        (Inl exc, trace') \<Rightarrow> (on_called_process_error exc, trace')
      | (Inr u, trace') \<Rightarrow> (Returned, trace'))"

text \<open>
  The loop \<^verbatim>\<open>for dep in required_deps: subprocess.check_call([..., "pip", "install", dep])\<close>
  of \<^verbatim>\<open>run_in_temp_venv\<close> and of the \<^verbatim>\<open>--venv\<close> branch of \<^verbatim>\<open>main\<close>: the first
  exception ends it. The set \<^verbatim>\<open>required_deps\<close> is given as the list of its elements in
  the order in which Python iterates over it.
\<close>

fun install_each ::
  "world \<Rightarrow> string \<Rightarrow> string list \<Rightarrow> action list \<Rightarrow> (py_exc + unit) \<times> action list" where
  "install_each os python [] trace = (Inr (), trace)"
| "install_each os python (dep # deps) trace =
     (case check_call os (PipInstall python dep) trace of
        (Inl exc, trace') \<Rightarrow> (Inl exc, trace')
      | (Inr u, trace') \<Rightarrow> install_each os python deps trace')"

subsection \<open>\<^verbatim>\<open>main\<close>, from the end of the scan\<close>

text \<open>
  The flags of the command line that \<^verbatim>\<open>main\<close> reads after the scan, and what the run
  finds on its machine: the outcomes of its subprocesses, the package index, whether
  \<^verbatim>\<open>requirements.txt\<close> can be opened, whether \<^verbatim>\<open>./venv\<close> and the project file exist,
  the line typed at the prompt (\<open>None\<close> at the end of the input), \<^verbatim>\<open>os.name\<close>,
  \<^verbatim>\<open>sys.executable\<close>, the working directory and the temporary directory.
\<close>

record args =
  generate_requirements :: bool
  temp_venv :: bool
  venv :: bool
  yes :: bool
  dry_run :: bool

record env =
  subprocess :: world
  requests_get :: http
  writable :: bool
  venv_exists :: bool
  project_file_exists :: bool
  stdin :: "string option"
  os_name :: string
  sys_executable :: string
  cwd :: string
  temp_dir :: string

text \<open>The variables of \<^verbatim>\<open>main\<close> that the reconciliation reads and writes.\<close>

record locals =
  required_deps :: "string list"
  installed_deps :: "string \<rightharpoonup> string"
  missing_deps :: "string list"

text \<open>
  \<^verbatim>\<open>missing_deps = [dep for dep in required_deps if dep.lower() not in installed_deps]\<close>
\<close>

definition reconcile :: "locals \<Rightarrow> locals" where
  "reconcile s =
     s\<lparr>missing_deps := filter (\<lambda>dep. installed_deps s (lower dep) = None) (required_deps s)\<rparr>"

text \<open>
  \<^verbatim>\<open>venv_path / "bin" / "python"\<close>, or \<^verbatim>\<open>venv_path / "Scripts" / "python.exe"\<close> where
  \<^verbatim>\<open>os.name\<close> is \<^verbatim>\<open>nt\<close>.
\<close>

definition joinpath :: "string \<Rightarrow> string \<Rightarrow> string \<Rightarrow> string" where
  "joinpath name_of_os p q = p @ (if name_of_os = ''nt'' then [CHR 0x5C] else ''/'') @ q"

definition venv_python :: "string \<Rightarrow> string \<Rightarrow> string" where
  "venv_python name_of_os venv_path =
     (if name_of_os = ''nt''
      then joinpath name_of_os (joinpath name_of_os venv_path ''Scripts'') ''python.exe''
      else joinpath name_of_os (joinpath name_of_os venv_path ''bin'') ''python'')"

definition temp_venv_path :: "env \<Rightarrow> string" where
  "temp_venv_path e = joinpath (os_name e) (temp_dir e) ''venv''"

text \<open>
  \<^verbatim>\<open>
  def run_in_temp_venv(required_deps, project_file):
      with tempfile.TemporaryDirectory() as temp_dir:
          venv_path = Path(temp_dir) / "venv"
          try:
              subprocess.check_call([sys.executable, "-m", "venv", str(venv_path)])
              venv_python = ...
              for dep in required_deps:
                  subprocess.check_call([str(venv_python), "-m", "pip", "install", dep])
              subprocess.check_call([str(venv_python), project_file])
          except subprocess.CalledProcessError as e:
              sys.exit(1)
  \<close>
\<close>

definition run_in_temp_venv ::
  "env \<Rightarrow> string list \<Rightarrow> string \<Rightarrow> action list \<Rightarrow> exit \<times> action list" where
  "run_in_temp_venv e required project_file trace =
     (let venv_path = temp_venv_path e in
      case check_call (subprocess e) (CreateVenv (sys_executable e) venv_path) trace of
        (Inl exc, trace') \<Rightarrow> (on_called_process_error exc, trace')
      | (Inr u, trace') \<Rightarrow>
          (case install_each (subprocess e) (venv_python (os_name e) venv_path) required trace' of
             (Inl exc, trace'') \<Rightarrow> (on_called_process_error exc, trace'')
           | (Inr u, trace'') \<Rightarrow>
               (case check_call (subprocess e)
                       (RunProject (venv_python (os_name e) venv_path) project_file) trace'' of
                  (Inl exc, trace''') \<Rightarrow> (on_called_process_error exc, trace''')
                | (Inr u, trace''') \<Rightarrow> (Returned, trace'''))))"

text \<open>
  The branch \<^verbatim>\<open>if args.venv:\<close> of \<^verbatim>\<open>main\<close>: it creates \<^verbatim>\<open>./venv\<close>, installs every
  dependency into it and exits.
\<close>

definition create_venv :: "env \<Rightarrow> string list \<Rightarrow> action list \<Rightarrow> exit \<times> action list" where
  "create_venv e required trace =
     (let venv_path = joinpath (os_name e) (cwd e) ''venv'' in
      if venv_exists e then (Exit 1, trace)
      else
        (case check_call (subprocess e) (CreateVenv (sys_executable e) venv_path) trace of
           (Inl exc, trace') \<Rightarrow> (on_called_process_error exc, trace')
         | (Inr u, trace') \<Rightarrow>
             (case install_each (subprocess e) (venv_python (os_name e) venv_path) required trace' of
                (Inl exc, trace'') \<Rightarrow> (on_called_process_error exc, trace'')
              | (Inr u, trace'') \<Rightarrow> (Exit 0, trace''))))"

text \<open>
  \<^verbatim>\<open>
  if args.generate_requirements:
      generate_requirements_file(required_deps, installed_deps)
      sys.exit(0)
  if args.temp_venv:
      run_in_temp_venv(required_deps, str(project_file))
      sys.exit(0)
  if args.venv:
      ...
      sys.exit(0)
  missing_deps = [dep for dep in required_deps if dep.lower() not in installed_deps]
  if args.dry_run:
      sys.exit(0)
  if missing_deps:
      response = 'n'
      if args.yes:
          response = 'y'
      else:
          response = input("Would you like to install them now? (y/n): ").strip().lower()
      if response == 'y':
          failed_packages = install_dependencies(missing_deps, python_exe)
          if not failed_packages:
              ...
          else:
              sys.exit(1)
      else:
          sys.exit(1)
  if not project_file.exists():
      sys.exit(1)
  run_project(str(project_file), python_exe)
  \<close>
  \<open>main\<close> gives how the run ends, the subprocesses it started, in order, and what it
  wrote to \<^verbatim>\<open>requirements.txt\<close>. \<open>s\<close> holds \<^verbatim>\<open>required_deps\<close> and
  \<^verbatim>\<open>installed_deps\<close> as the scan and \<^verbatim>\<open>get_installed_packages\<close> left them;
  \<^verbatim>\<open>python_exe\<close> is \<^verbatim>\<open>sys.executable\<close>.
\<close>

definition main ::
  "args \<Rightarrow> env \<Rightarrow> locals \<Rightarrow> string \<Rightarrow> exit \<times> action list \<times> string list option" where
  "main a e s project_file =
     (let python_exe = sys_executable e in
      if generate_requirements a then
        (Exit 0, [],
         generate_requirements_file (requests_get e) (writable e) (set (required_deps s))
           (installed_deps s))
      else if temp_venv a then
        (case run_in_temp_venv e (required_deps s) project_file [] of
           (Returned, trace) \<Rightarrow> (Exit 0, trace, None)
         | (ex, trace) \<Rightarrow> (ex, trace, None))
      else if venv a then
        (case create_venv e (required_deps s) [] of (ex, trace) \<Rightarrow> (ex, trace, None))
      else
        (let s = reconcile s in
         if dry_run a then (Exit 0, [], None)
         else
           (case (if missing_deps s \<noteq> [] then
                    (case (if yes a then Inr ''y''
                           else (case stdin e of
                                   None \<Rightarrow> Inl EOFError
                                 | Some line \<Rightarrow> Inr (lower (strip line)))) of
                       Inl exc \<Rightarrow> (Raised exc, [])
                     | Inr response \<Rightarrow>
                         if response = ''y'' then
                           (case install_dependencies (subprocess e) (missing_deps s) python_exe [] of
                              (Inl exc, trace) \<Rightarrow> (Raised exc, trace)
                            | (Inr failed_packages, trace) \<Rightarrow>
                                if failed_packages = [] then (Returned, trace)
                                else (Exit 1, trace))
                         else (Exit 1, []))
                  else (Returned, [])) of
              (Returned, trace) \<Rightarrow>
                if \<not> project_file_exists e then (Exit 1, trace, None)
                else (case run_project (subprocess e) project_file python_exe trace of
                        (ex, trace') \<Rightarrow> (ex, trace', None))
            | (ex, trace) \<Rightarrow> (ex, trace, None))))"

section \<open>What the specification says, in its own words\<close>

subsection \<open>Imports of a file\<close>

text \<open>The first dotted component of a module name: what stands before its first dot.\<close>

definition first_component :: "string \<Rightarrow> string" where
  "first_component dotted = takeWhile (\<lambda>c. c \<noteq> CHR ''.'') dotted"

text \<open>The nodes of a syntax tree: the node itself and the nodes of its children.\<close>

fun subnodes :: "node \<Rightarrow> node set" where
  "subnodes (Import names) = insert (Import names) (AliasNode ` set names)"
| "subnodes (ImportFrom module names level) =
     insert (ImportFrom module names level) (AliasNode ` set names)"
| "subnodes (AliasNode a) = {AliasNode a}"
| "subnodes (Other children) = insert (Other children) (\<Union>c \<in> set children. subnodes c)"

text \<open>
  The first components of the names in the \<^verbatim>\<open>import X\<close> statements of a tree and of the
  modules of its \<^verbatim>\<open>from X import Y\<close> statements of level 0. A statement has a module when
  its \<^verbatim>\<open>module\<close> is a string that is not empty.
\<close>

definition spec_imports :: "node \<Rightarrow> string set" where
  "spec_imports tree =
     {first_component (alias_name a) | a names. Import names \<in> subnodes tree \<and> a \<in> set names}
     \<union> {first_component m | m names. ImportFrom (Some m) names 0 \<in> subnodes tree \<and> m \<noteq> []}"

text \<open>What one node adds to the set of imports.\<close>

definition node_imports :: "node \<Rightarrow> string set" where
  "node_imports n =
     (case n of
        Import names \<Rightarrow> (\<lambda>a. first_component (alias_name a)) ` set names
      | ImportFrom module names level \<Rightarrow>
          (case module of
             Some m \<Rightarrow> if level = 0 \<and> m \<noteq> [] then {first_component m} else {}
           | None \<Rightarrow> {})
      | AliasNode a \<Rightarrow> {}
      | Other children \<Rightarrow> {})"

subsection \<open>Files under a directory\<close>

text \<open>
  \<open>lies_under directory entries (path, e)\<close>: the entry \<open>e\<close> is found at \<open>path\<close>, at any depth
  below the directory with the path \<open>directory\<close> and the entries \<open>entries\<close>.
\<close>

inductive lies_under :: "string list \<Rightarrow> entry list \<Rightarrow> string list \<times> entry \<Rightarrow> bool" where
  here: "e \<in> set entries \<Longrightarrow> lies_under directory entries (directory @ [entry_name e], e)"
| deeper: "Dir n children \<in> set entries \<Longrightarrow> lies_under (directory @ [n]) children x
     \<Longrightarrow> lies_under directory entries x"

text \<open>The packages one file contributes: the results of resolving its imports that are a
  string and not empty.\<close>

definition file_packages ::
  "parser \<Rightarrow> string set \<Rightarrow> string set \<Rightarrow> (string \<rightharpoonup> string) \<Rightarrow> entry \<Rightarrow> string set" where
  "file_packages parse blacklist local_imports package_mappings e =
     {package. \<exists>module \<in> extract_imports parse e.
        resolve_package module local_imports blacklist package_mappings = Some package
        \<and> package \<noteq> []}"

text \<open>
  The result of the scan as the specification words it: the union, over the \<^verbatim>\<open>.py\<close> files
  under the directory that are not named like the script and have no excluded component in
  their path, of the results of resolving their imports that are not \<^verbatim>\<open>None\<close>.
\<close>

definition scan_directory_claimed ::
  "parser \<Rightarrow> entry list \<Rightarrow> string list \<Rightarrow> string set \<Rightarrow> string set \<Rightarrow> string
     \<Rightarrow> string set \<Rightarrow> (string \<rightharpoonup> string) \<Rightarrow> string set" where
  "scan_directory_claimed parse tree directory blacklist local_imports script_name
       excluded_dirs package_mappings =
     {package. \<exists>file_path e.
        lies_under directory tree (file_path, e)
        \<and> is_file e \<and> endswith (entry_name e) ''.py''
        \<and> entry_name e \<noteq> script_name
        \<and> (\<forall>part \<in> set file_path. part \<notin> excluded_dirs)
        \<and> (\<exists>module \<in> extract_imports parse e.
              resolve_package module local_imports blacklist package_mappings = Some package)}"

subsection \<open>Local modules\<close>

text \<open>
  The names that the entries of one directory give: the name of every directory among them
  that holds an existing \<^verbatim>\<open>__init__.py\<close>, and the stem of every regular file among them
  whose name is a stem followed by \<^verbatim>\<open>.py\<close>.
\<close>

definition recorded :: "entry list \<Rightarrow> string set" where
  "recorded entries =
     {entry_name item | item. item \<in> set entries \<and> is_dir item
        \<and> path_exists (child (iterdir item) ''__init__.py'')}
     \<union> {s. s \<noteq> [] \<and> (\<exists>item \<in> set entries. is_file item \<and> entry_name item = s @ ''.py'')}"

text \<open>
  \<open>shallow_view\<close> forgets what lies deeper than the two levels: of an entry of the root it
  keeps the names and kinds of its entries, and of an entry of the \<^verbatim>\<open>src\<close> directory of
  the root as well; every directory below is emptied.
\<close>

fun leaf :: "entry \<Rightarrow> entry" where
  "leaf (Dir n children) = Dir n []"
| "leaf e = e"

fun keep_children :: "entry \<Rightarrow> entry" where
  "keep_children (Dir n children) = Dir n (map leaf children)"
| "keep_children e = e"

definition shallow_item :: "entry \<Rightarrow> entry" where
  "shallow_item item =
     (case item of
        Dir n children \<Rightarrow>
          if n = ''src'' then Dir n (map keep_children children) else keep_children item
      | _ \<Rightarrow> item)"

definition shallow_view :: "entry list \<Rightarrow> entry list" where
  "shallow_view project_root = map shallow_item project_root"

subsection \<open>The requirements file\<close>

text \<open>
  The version a line is pinned to: the one of the installed packages when there is one
  (a string that is not empty), else the latest one of the index when there is one, else
  none.
\<close>

definition pinned_version :: "http \<Rightarrow> (string \<rightharpoonup> string) \<Rightarrow> string \<Rightarrow> string option" where
  "pinned_version pypi installed_packages dep =
     (if truthy (installed_packages (lower dep)) then installed_packages (lower dep)
      else if truthy (get_latest_version pypi dep) then get_latest_version pypi dep
      else None)"

definition spec_line :: "http \<Rightarrow> (string \<rightharpoonup> string) \<Rightarrow> string \<Rightarrow> string" where
  "spec_line pypi installed_packages dep =
     (case pinned_version pypi installed_packages dep of
        Some version \<Rightarrow> dep @ ''=='' @ version @ [CHR 0x0A]
      | None \<Rightarrow> dep @ [CHR 0x0A])"

subsection \<open>Installations and the prompt\<close>

text \<open>An installation failed with a called-process error: pip ended with a return code
  other than zero.\<close>

definition install_failed :: "proc_result \<Rightarrow> bool" where
  "install_failed r = (\<exists>returncode. r = Exited returncode \<and> returncode \<noteq> 0)"

text \<open>
  What the specification says of \<open>install_dependencies\<close>: it tries every dependency of
  the list in order, whatever fails, and returns the dependencies whose installation raised
  a called-process error, in the order of the list; what it returns is empty if and only if
  every installation succeeded.
\<close>

definition install_dependencies_claimed ::
  "world \<Rightarrow> string list \<Rightarrow> string \<Rightarrow> action list \<Rightarrow> bool" where
  "install_dependencies_claimed os deps python_exe trace =
     (\<exists>failed_installs.
        install_dependencies os deps python_exe trace =
          (Inr failed_installs, trace @ map (PipInstall python_exe) deps)
        \<and> failed_installs = nths deps {i. install_failed (os (length trace + i))}
        \<and> (failed_installs = [] \<longleftrightarrow> (\<forall>i < length deps. os (length trace + i) = Exited 0)))"

text \<open>The user accepts the installation with \<^verbatim>\<open>--yes\<close> or by typing \<^verbatim>\<open>y\<close>, and declines
  it by typing anything else.\<close>

definition accepted :: "args \<Rightarrow> env \<Rightarrow> bool" where
  "accepted a e = (yes a \<or> (\<exists>line. stdin e = Some line \<and> lower (strip line) = ''y''))"

definition declined :: "args \<Rightarrow> env \<Rightarrow> bool" where
  "declined a e = (\<not> yes a \<and> (\<exists>line. stdin e = Some line \<and> lower (strip line) \<noteq> ''y''))"

subsection \<open>A small project\<close>

text \<open>
  A parser for the texts of the examples: four Python files, and anything else is a syntax
  error.
\<close>

definition demo_parse :: parser where
  "demo_parse text =
     (if text = ''import os.path, requests as rq; from yaml.x import load; from . import sibling; from ..pkg.util import f''
      then Inr (Other [Import [Alias ''os.path'' None, Alias ''requests'' (Some ''rq'')],
                       ImportFrom (Some ''yaml.x'') [Alias ''load'' None] 0,
                       ImportFrom None [Alias ''sibling'' None] 1,
                       ImportFrom (Some ''pkg.util'') [Alias ''f'' None] 2])
      else if text = ''def f(): import numpy.linalg''
      then Inr (Other [Other [Other [], Import [Alias ''numpy.linalg'' None]]])
      else if text = ''import tomli''
      then Inr (Other [Import [Alias ''tomli'' None]])
      else if text = []
      then Inr (Other [])
      else Inl SyntaxError)"

definition demo_app :: string where
  "demo_app = ''import os.path, requests as rq; from yaml.x import load; from . import sibling; from ..pkg.util import f''"

definition demo_tree :: "entry list" where
  "demo_tree =
     [File ''app.py'' demo_app,
      File ''dependency_detective.py'' ''import tomli'',
      File ''broken.py'' ''import'',
      File ''README.md'' ''import tomli'',
      Dir ''venv'' [File ''site.py'' ''import tomli''],
      Dir ''pkg'' [File ''__init__.py'' [],
                  File ''util.py'' ''def f(): import numpy.linalg'',
                  Dir ''inner'' [File ''__init__.py'' []]],
      Dir ''src'' [File ''lib.py'' [], Dir ''core'' [File ''__init__.py'' []]]]"

definition demo_index :: http where
  "demo_index url =
     (if url = ''https://pypi.org/pypi/requests/json''
      then Inr \<lparr>status_code = 200, body = Some [''info'' \<mapsto> [''version'' \<mapsto> ''2.31.0'']]\<rparr>
      else if url = ''https://pypi.org/pypi/numpy/json''
      then Inl Timeout
      else Inr \<lparr>status_code = 404, body = None\<rparr>)"

text \<open>A machine on which every subprocess succeeds and the user types \<^verbatim>\<open>Y\<close> at the
  prompt, the flags of a plain run, and the state of \<^verbatim>\<open>main\<close> after the scan.\<close>

definition demo_env :: env where
  "demo_env =
     \<lparr>subprocess = (\<lambda>i. Exited 0), requests_get = demo_index, writable = True,
      venv_exists = False, project_file_exists = True, stdin = Some ''  Y '',
      os_name = ''posix'', sys_executable = ''python'', cwd = ''/proj'', temp_dir = ''/tmp/t''\<rparr>"

definition demo_args :: args where
  "demo_args =
     \<lparr>generate_requirements = False, temp_venv = False, venv = False, yes = False,
      dry_run = False\<rparr>"

definition demo_locals :: locals where
  "demo_locals =
     \<lparr>required_deps = [''PyYAML'', ''numpy''],
      installed_deps = [''pyyaml'' \<mapsto> ''6.0'', ''pip'' \<mapsto> ''24.0''], missing_deps = []\<rparr>"

section \<open>Theorems\<close>

subsection \<open>Strings and the walk over a tree\<close>

lemma str_split_nonempty: "str_split sep s \<noteq> []"
  by (induction s) (auto split: list.splits)

lemma hd_str_split: "hd (str_split sep s) = takeWhile (\<lambda>c. c \<noteq> sep) s"
  by (induction s) (auto split: list.splits simp: str_split_nonempty)

lemma subnodes_unfold:
  "subnodes n = insert n (\<Union>c \<in> set (iter_child_nodes n). subnodes c)"
  by (cases n) auto

text \<open>The walk yields every node of the trees in its queue, and nothing else.\<close>

lemma set_walk: "set (walk todo) = (\<Union>n \<in> set todo. subnodes n)"
proof (induction todo rule: walk.induct)
  case 1
  show ?case by simp
next
  case (2 node todo)
  have "set (walk (node # todo)) = insert node (set (walk (todo @ iter_child_nodes node)))"
    by simp
  also have "\<dots> = insert node ((\<Union>n \<in> set todo. subnodes n)
       \<union> (\<Union>c \<in> set (iter_child_nodes node). subnodes c))"
    using 2 by (simp add: Un_commute)
  also have "\<dots> = (\<Union>n \<in> set (node # todo). subnodes n)"
    using subnodes_unfold [of node] by auto
  finally show ?case .
qed

lemma fold_insert_image: "fold (\<lambda>a acc. insert (f a) acc) xs S = S \<union> f ` set xs"
  by (induction xs arbitrary: S) auto

lemma visit_node_imports: "visit n acc = acc \<union> node_imports n"
  by (cases n)
    (auto simp: node_imports_def first_component_def hd_str_split fold_insert_image
      split: option.splits)

lemma fold_visit: "fold visit ns acc = acc \<union> (\<Union>n \<in> set ns. node_imports n)"
  by (induction ns arbitrary: acc) (auto simp: visit_node_imports)

lemma node_imports_Union:
  "(\<Union>n \<in> S. node_imports n) =
     {first_component (alias_name a) | a names. Import names \<in> S \<and> a \<in> set names}
     \<union> {first_component m | m names. ImportFrom (Some m) names 0 \<in> S \<and> m \<noteq> []}"
  (is "?L = ?R")
proof (rule set_eqI)
  fix x
  show "x \<in> ?L \<longleftrightarrow> x \<in> ?R"
  proof
    assume "x \<in> ?L"
    then obtain n where n: "n \<in> S" "x \<in> node_imports n" by blast
    then show "x \<in> ?R"
      by (cases n) (auto simp: node_imports_def split: option.splits if_splits)
  next
    assume "x \<in> ?R"
    then consider (imp) a names where "Import names \<in> S" "a \<in> set names"
        "x = first_component (alias_name a)"
      | (frm) m names where "ImportFrom (Some m) names 0 \<in> S" "m \<noteq> []" "x = first_component m"
      by blast
    then show "x \<in> ?L"
    proof cases
      case imp
      then have "x \<in> node_imports (Import names)" by (simp add: node_imports_def)
      with imp show ?thesis by blast
    next
      case frm
      then have "x \<in> node_imports (ImportFrom (Some m) names 0)" by (simp add: node_imports_def)
      with frm show ?thesis by blast
    qed
  qed
qed

lemma extract_imports_tree:
  "read_and_parse parse e = Inr tree \<Longrightarrow> extract_imports parse e = spec_imports tree"
proof -
  assume "read_and_parse parse e = Inr tree"
  then have "extract_imports parse e = fold visit (walk [tree]) {}"
    by (simp add: extract_imports_def)
  also have "\<dots> = (\<Union>n \<in> subnodes tree. node_imports n)"
    by (simp only: fold_visit set_walk) simp
  also have "\<dots> = spec_imports tree"
    unfolding spec_imports_def by (rule node_imports_Union)
  finally show ?thesis .
qed

lemma extract_imports_failed:
  "read_and_parse parse e = Inl exc \<Longrightarrow> extract_imports parse e = {}"
  by (cases exc) (simp_all add: extract_imports_def)

lemma extract_imports_not_file: "\<not> is_file e \<Longrightarrow> extract_imports parse e = {}"
  by (cases e) (simp_all add: extract_imports_def read_and_parse_def)

lemma demo_app_parsed:
  "demo_parse demo_app =
     Inr (Other [Import [Alias ''os.path'' None, Alias ''requests'' (Some ''rq'')],
                 ImportFrom (Some ''yaml.x'') [Alias ''load'' None] 0,
                 ImportFrom None [Alias ''sibling'' None] 1,
                 ImportFrom (Some ''pkg.util'') [Alias ''f'' None] 2])"
  by (simp add: demo_parse_def demo_app_def)

lemma demo_app_imports:
  "extract_imports demo_parse (File n demo_app) = {''os'', ''requests'', ''yaml''}"
  by (auto simp add: extract_imports_def read_and_parse_def demo_app_parsed)

lemma demo_util_imports:
  "extract_imports demo_parse (File n ''def f(): import numpy.linalg'') = {''numpy''}"
  by (simp add: extract_imports_def read_and_parse_def demo_parse_def)

lemma demo_broken_imports: "extract_imports demo_parse (File n ''import'') = {}"
  by (simp add: extract_imports_def read_and_parse_def demo_parse_def)

lemma demo_empty_imports: "extract_imports demo_parse (File n []) = {}"
  by (simp add: extract_imports_def read_and_parse_def demo_parse_def)

subsection \<open>C1: the imports of a file that parses\<close>

text \<open>
  C1. For every file whose text parses, \<open>extract_imports\<close> returns exactly the set of the
  first dotted components of the module names in its \<^verbatim>\<open>import X\<close> statements, wherever
  they stand in the file, and of the modules of its \<^verbatim>\<open>from X import Y\<close> statements of
  level 0. Relative imports (a level above 0) and \<^verbatim>\<open>from\<close> statements without a module
  (no module, or an empty one) add nothing: \<open>spec_imports\<close> does not count them.
\<close>

theorem extract_imports_parsed:
  assumes "parse text = Inr tree"
  shows "extract_imports parse (File n text) = spec_imports tree"
  using assms by (intro extract_imports_tree) (simp add: read_and_parse_def)

theorem extract_imports_parsed_witness:
  "demo_parse demo_app =
     Inr (Other [Import [Alias ''os.path'' None, Alias ''requests'' (Some ''rq'')],
                 ImportFrom (Some ''yaml.x'') [Alias ''load'' None] 0,
                 ImportFrom None [Alias ''sibling'' None] 1,
                 ImportFrom (Some ''pkg.util'') [Alias ''f'' None] 2])
   \<and> spec_imports (Other [Import [Alias ''os.path'' None, Alias ''requests'' (Some ''rq'')],
                 ImportFrom (Some ''yaml.x'') [Alias ''load'' None] 0,
                 ImportFrom None [Alias ''sibling'' None] 1,
                 ImportFrom (Some ''pkg.util'') [Alias ''f'' None] 2])
       = {''os'', ''requests'', ''yaml''}
   \<and> extract_imports demo_parse (File ''app.py'' demo_app) = {''os'', ''requests'', ''yaml''}"
  using extract_imports_parsed [of demo_parse demo_app _ "''app.py''", OF demo_app_parsed]
    demo_app_parsed demo_app_imports [of "''app.py''"]
  by simp

subsection \<open>C2: resolution of a module name\<close>

text \<open>
  C2. For every module name, set of local modules, blacklist and mapping table,
  \<open>resolve_package\<close> returns \<^verbatim>\<open>None\<close> exactly when the module name is in the set of local
  modules or in the blacklist; otherwise it returns the package the table maps the module
  name to when the table has the name as a key, and the module name itself when it has not.
\<close>

theorem resolve_package_spec:
  "(resolve_package module local_imports blacklist package_mappings = None
      \<longleftrightarrow> module \<in> local_imports \<or> module \<in> blacklist)
   \<and> resolve_package module local_imports blacklist package_mappings =
       (if module \<in> local_imports \<or> module \<in> blacklist then None
        else (case package_mappings module of
                Some package \<Rightarrow> Some package
              | None \<Rightarrow> Some module))"
  by (simp add: resolve_package_def dict_get_def split: option.split)

theorem resolve_package_spec_witness:
  "resolve_package ''os'' {''app''} {''os'', ''sys''} [''yaml'' \<mapsto> ''PyYAML''] = None
   \<and> resolve_package ''app'' {''app''} {''os'', ''sys''} [''yaml'' \<mapsto> ''PyYAML''] = None
   \<and> resolve_package ''yaml'' {''app''} {''os'', ''sys''} [''yaml'' \<mapsto> ''PyYAML''] = Some ''PyYAML''
   \<and> resolve_package ''numpy'' {''app''} {''os'', ''sys''} [''yaml'' \<mapsto> ''PyYAML''] = Some ''numpy''"
  using resolve_package_spec [of "''os''" "{''app''}" "{''os'', ''sys''}" "[''yaml'' \<mapsto> ''PyYAML'']"]
    resolve_package_spec [of "''app''" "{''app''}" "{''os'', ''sys''}" "[''yaml'' \<mapsto> ''PyYAML'']"]
    resolve_package_spec [of "''yaml''" "{''app''}" "{''os'', ''sys''}" "[''yaml'' \<mapsto> ''PyYAML'']"]
    resolve_package_spec [of "''numpy''" "{''app''}" "{''os'', ''sys''}" "[''yaml'' \<mapsto> ''PyYAML'']"]
  by simp

subsection \<open>C5: a file that does not parse\<close>

text \<open>
  C5. For every file whose text fails to parse with a syntax error, \<open>extract_imports\<close>
  returns the empty set (the handler catches the exception, so none leaves the function),
  and the file adds nothing to the dependencies of the scan.
\<close>

theorem extract_imports_syntax_error:
  assumes "parse text = Inl SyntaxError"
  shows "extract_imports parse (File n text) = {}
    \<and> scan_file parse blacklist local_imports script_name excluded_dirs package_mappings
        (file_path, File n text) dependencies = dependencies"
proof -
  have "read_and_parse parse (File n text) = Inl SyntaxError"
    using assms by (simp add: read_and_parse_def)
  then have "extract_imports parse (File n text) = {}"
    by (rule extract_imports_failed)
  then show ?thesis by (simp add: scan_file_def)
qed

theorem extract_imports_syntax_error_witness:
  "demo_parse ''import'' = Inl SyntaxError
   \<and> extract_imports demo_parse (File ''broken.py'' ''import'') = {}
   \<and> scan_file demo_parse {''os''} {''pkg''} ''dependency_detective.py'' {''venv''}
        [''yaml'' \<mapsto> ''PyYAML''] ([''/'', ''proj'', ''broken.py''], File ''broken.py'' ''import'')
        {''numpy''} = {''numpy''}"
proof -
  have p: "demo_parse ''import'' = Inl SyntaxError"
    by (simp add: demo_parse_def)
  from extract_imports_syntax_error [of demo_parse "''import''" "''broken.py''" "{''os''}"
      "{''pkg''}" "''dependency_detective.py''" "{''venv''}" "[''yaml'' \<mapsto> ''PyYAML'']"
      "[''/'', ''proj'', ''broken.py'']" "{''numpy''}", OF p] p
  show ?thesis by simp
qed

subsection \<open>The files that the scan visits\<close>

lemma under_Nil: "\<not> lies_under d [] x"
  by (auto elim: lies_under.cases)

lemma under_Cons:
  "lies_under d (e # es) x \<longleftrightarrow>
     x = (d @ [entry_name e], e)
     \<or> (case e of Dir n cs \<Rightarrow> lies_under (d @ [n]) cs x | _ \<Rightarrow> False)
     \<or> lies_under d es x"
  (is "?L \<longleftrightarrow> ?R")
proof
  assume ?L
  then show ?R
  proof cases
    case (here e')
    then show ?thesis by (auto intro: lies_under.here)
  next
    case (deeper n cs)
    then show ?thesis by (auto intro: lies_under.deeper)
  qed
next
  assume ?R
  then consider "x = (d @ [entry_name e], e)"
    | n cs where "e = Dir n cs" "lies_under (d @ [n]) cs x"
    | "lies_under d es x"
    by (auto split: entry.splits)
  then show ?L
  proof cases
    case 1
    then show ?thesis by (simp add: lies_under.here)
  next
    case 2
    then show ?thesis by (auto intro: lies_under.deeper)
  next
    case 3
    then show ?thesis
    proof cases
      case (here e')
      then show ?thesis using lies_under.here [of e' "e # es" d] by simp
    next
      case (deeper n cs)
      then show ?thesis using lies_under.deeper [of n cs "e # es" d x] by simp
    qed
  qed
qed

lemma Collect_under_Cons:
  "{x. lies_under d (e # es) x \<and> P x} =
     (if P (d @ [entry_name e], e) then {(d @ [entry_name e], e)} else {})
     \<union> (case e of Dir n cs \<Rightarrow> {x. lies_under (d @ [n]) cs x \<and> P x} | _ \<Rightarrow> {})
     \<union> {x. lies_under d es x \<and> P x}"
  unfolding under_Cons [of d e es]
  by (cases e) auto

text \<open>\<open>rglob_py\<close> yields the entries under the directory whose names end in \<^verbatim>\<open>.py\<close>.\<close>

lemma set_rglob_py:
  "set (rglob_py d es) = {x. lies_under d es x \<and> endswith (entry_name (snd x)) ''.py''}"
proof (induction d es rule: rglob_py.induct)
  case (1 d)
  show ?case by (simp add: under_Nil)
next
  case (2 d n cs es)
  show ?case
    unfolding Collect_under_Cons by (simp add: "2.IH" [symmetric])
qed (simp_all add: Collect_under_Cons)

lemma under_last: "lies_under d es x \<Longrightarrow> path_name (fst x) = entry_name (snd x)"
  by (induction rule: lies_under.induct) (simp_all add: path_name_def)

lemma scan_file_eq:
  "scan_file parse bl li sn ex pm fp deps =
     deps \<union> (if path_name (fst fp) \<noteq> sn \<and> (\<forall>part \<in> set (fst fp). part \<notin> ex)
              then file_packages parse bl li pm (snd fp) else {})"
  by (auto simp: scan_file_def file_packages_def split: option.splits if_splits)

lemma fold_scan_file:
  "fold (scan_file parse bl li sn ex pm) fps deps =
     deps \<union> (\<Union>fp \<in> set fps.
        if path_name (fst fp) \<noteq> sn \<and> (\<forall>part \<in> set (fst fp). part \<notin> ex)
        then file_packages parse bl li pm (snd fp) else {})"
proof (induction fps arbitrary: deps)
  case Nil
  show ?case by simp
next
  case (Cons fp fps)
  show ?case
    unfolding fold_simps Cons.IH scan_file_eq [of parse bl li sn ex pm fp deps]
    by auto
qed

lemma file_packages_not_file: "\<not> is_file e \<Longrightarrow> file_packages parse bl li pm e = {}"
  by (simp add: file_packages_def extract_imports_not_file)

lemma demo_scan:
  "scan_directory demo_parse demo_tree [''/'', ''proj''] [''/'', ''proj''] {''os''}
     {''pkg'', ''app''} ''dependency_detective.py'' {''venv'', ''build''}
     [''yaml'' \<mapsto> ''PyYAML'', ''requests'' \<mapsto> []]
   = {''PyYAML'', ''numpy''}"
  unfolding scan_directory_def demo_tree_def
  by (simp add: scan_file_def path_name_def endswith_def resolve_package_def dict_get_def
      demo_app_imports demo_util_imports demo_broken_imports demo_empty_imports insert_commute)

subsection \<open>C3: the result of the scan\<close>

text \<open>
  C3, as the specification states it, fails: with \<^verbatim>\<open>--map requests:\<close> the table maps
  \<^verbatim>\<open>requests\<close> to the empty string, the file \<^verbatim>\<open>app.py\<close> imports \<^verbatim>\<open>requests\<close>, the
  result of resolving it is the empty string and not \<^verbatim>\<open>None\<close>, and the scan leaves it
  out: \<^verbatim>\<open>if package:\<close> is false for it.
\<close>

theorem scan_directory_claimed_counterexample:
  "scan_directory demo_parse demo_tree [''/'', ''proj''] [''/'', ''proj''] {''os''}
     {''pkg'', ''app''} ''dependency_detective.py'' {''venv'', ''build''}
     [''yaml'' \<mapsto> ''PyYAML'', ''requests'' \<mapsto> []]
   \<noteq> scan_directory_claimed demo_parse demo_tree [''/'', ''proj''] {''os''}
     {''pkg'', ''app''} ''dependency_detective.py'' {''venv'', ''build''}
     [''yaml'' \<mapsto> ''PyYAML'', ''requests'' \<mapsto> []]"
proof -
  have u: "lies_under [''/'', ''proj''] demo_tree ([''/'', ''proj''] @ [entry_name (File ''app.py'' demo_app)],
      File ''app.py'' demo_app)"
    by (rule lies_under.here) (simp add: demo_tree_def)
  have r: "resolve_package ''requests'' {''pkg'', ''app''} {''os''}
      [''yaml'' \<mapsto> ''PyYAML'', ''requests'' \<mapsto> []] = Some []"
    by (simp add: resolve_package_def dict_get_def)
  have m: "''requests'' \<in> extract_imports demo_parse (File ''app.py'' demo_app)"
    by (simp add: demo_app_imports)
  have "[] \<in> scan_directory_claimed demo_parse demo_tree [''/'', ''proj''] {''os''}
     {''pkg'', ''app''} ''dependency_detective.py'' {''venv'', ''build''}
     [''yaml'' \<mapsto> ''PyYAML'', ''requests'' \<mapsto> []]"
    unfolding scan_directory_claimed_def mem_Collect_eq
    apply (rule exI [of _ "[''/'', ''proj''] @ [entry_name (File ''app.py'' demo_app)]"])
    apply (rule exI [of _ "File ''app.py'' demo_app"])
    apply (intro conjI)
         apply (rule u)
        apply simp
       apply (simp add: endswith_def)
      apply simp
     apply simp
    apply (rule bexI [of _ "''requests''"])
     apply (rule r)
    apply (rule m)
    done
  moreover have "[] \<notin> scan_directory demo_parse demo_tree [''/'', ''proj''] [''/'', ''proj'']
     {''os''} {''pkg'', ''app''} ''dependency_detective.py'' {''venv'', ''build''}
     [''yaml'' \<mapsto> ''PyYAML'', ''requests'' \<mapsto> []]"
    unfolding demo_scan by simp
  ultimately show ?thesis by metis
qed

lemma scan_directory_set:
  "scan_directory parse tree directory project_root blacklist local_imports script_name
       excluded_dirs package_mappings =
     {package. \<exists>file_path e.
        lies_under directory tree (file_path, e)
        \<and> is_file e \<and> endswith (entry_name e) ''.py''
        \<and> entry_name e \<noteq> script_name
        \<and> (\<forall>part \<in> set file_path. part \<notin> excluded_dirs)
        \<and> (\<exists>module \<in> extract_imports parse e.
              resolve_package module local_imports blacklist package_mappings = Some package
              \<and> package \<noteq> [])}"
  (is "?L = ?R")
proof (rule set_eqI)
  fix p
  let ?pk = "file_packages parse blacklist local_imports package_mappings"
  let ?ok = "\<lambda>fp. path_name (fst fp) \<noteq> script_name \<and> (\<forall>part \<in> set (fst fp). part \<notin> excluded_dirs)"
  have L: "?L = (\<Union>fp \<in> {x. lies_under directory tree x \<and> endswith (entry_name (snd x)) ''.py''}.
      if ?ok fp then ?pk (snd fp) else {})"
    by (simp add: scan_directory_def fold_scan_file set_rglob_py)
  show "p \<in> ?L \<longleftrightarrow> p \<in> ?R"
  proof
    assume "p \<in> ?L"
    then obtain fp where fp: "lies_under directory tree fp" "endswith (entry_name (snd fp)) ''.py''"
      and p: "p \<in> (if ?ok fp then ?pk (snd fp) else {})"
      unfolding L by blast
    from p have ok: "?ok fp" and pk: "p \<in> ?pk (snd fp)"
      by (simp_all split: if_splits)
    have "is_file (snd fp)"
      using pk file_packages_not_file [of "snd fp" parse blacklist local_imports package_mappings]
      by auto
    moreover have "entry_name (snd fp) \<noteq> script_name"
      using under_last [OF fp(1)] ok by simp
    moreover have "lies_under directory tree (fst fp, snd fp)"
      using fp(1) by simp
    moreover have "\<forall>part \<in> set (fst fp). part \<notin> excluded_dirs"
      using ok by simp
    moreover have "\<exists>module \<in> extract_imports parse (snd fp).
        resolve_package module local_imports blacklist package_mappings = Some p \<and> p \<noteq> []"
      using pk by (simp add: file_packages_def)
    ultimately show "p \<in> ?R"
      using fp(2) by blast
  next
    assume "p \<in> ?R"
    then obtain file_path fl where f: "lies_under directory tree (file_path, fl)"
      "endswith (entry_name fl) ''.py''" "entry_name fl \<noteq> script_name"
      "\<forall>part \<in> set file_path. part \<notin> excluded_dirs"
      and pk: "p \<in> ?pk fl"
      unfolding file_packages_def by blast
    have "path_name file_path \<noteq> script_name"
      using under_last [OF f(1)] f(3) by simp
    then have "?ok (file_path, fl)"
      using f(4) by simp
    then have "p \<in> (if ?ok (file_path, fl) then ?pk (snd (file_path, fl)) else {})"
      using pk by simp
    moreover have "(file_path, fl) \<in> {x. lies_under directory tree x \<and> endswith (entry_name (snd x)) ''.py''}"
      using f(1,2) by simp
    ultimately show "p \<in> ?L"
      unfolding L by (rule UN_I [rotated])
  qed
qed

text \<open>
  C3, amended. \<open>scan_directory\<close> returns the union, over every \<^verbatim>\<open>.py\<close> file under the
  scanned directory whose name differs from the name of the script and none of whose path
  components is in the set of excluded directories, of the results of resolving the module
  names extracted from the file that are neither \<^verbatim>\<open>None\<close> nor the empty string. Files
  named like the script or with an excluded component in their path contribute nothing.
  This is the set that the specification describes, without the empty string.
\<close>

theorem scan_directory_union:
  "scan_directory parse tree directory project_root blacklist local_imports script_name
       excluded_dirs package_mappings =
     {package. \<exists>file_path e.
        lies_under directory tree (file_path, e)
        \<and> is_file e \<and> endswith (entry_name e) ''.py''
        \<and> entry_name e \<noteq> script_name
        \<and> (\<forall>part \<in> set file_path. part \<notin> excluded_dirs)
        \<and> (\<exists>module \<in> extract_imports parse e.
              resolve_package module local_imports blacklist package_mappings = Some package
              \<and> package \<noteq> [])}
   \<and> scan_directory parse tree directory project_root blacklist local_imports script_name
       excluded_dirs package_mappings =
     scan_directory_claimed parse tree directory blacklist local_imports script_name
       excluded_dirs package_mappings - {[]}"
proof
  show "scan_directory parse tree directory project_root blacklist local_imports script_name
       excluded_dirs package_mappings =
     {package. \<exists>file_path e.
        lies_under directory tree (file_path, e)
        \<and> is_file e \<and> endswith (entry_name e) ''.py''
        \<and> entry_name e \<noteq> script_name
        \<and> (\<forall>part \<in> set file_path. part \<notin> excluded_dirs)
        \<and> (\<exists>module \<in> extract_imports parse e.
              resolve_package module local_imports blacklist package_mappings = Some package
              \<and> package \<noteq> [])}"
    by (rule scan_directory_set)
  show "scan_directory parse tree directory project_root blacklist local_imports script_name
       excluded_dirs package_mappings =
     scan_directory_claimed parse tree directory blacklist local_imports script_name
       excluded_dirs package_mappings - {[]}"
    unfolding scan_directory_set scan_directory_claimed_def by blast
qed

theorem scan_directory_union_witness:
  "{''PyYAML'', ''numpy''} =
     {package. \<exists>file_path e.
        lies_under [''/'', ''proj''] demo_tree (file_path, e)
        \<and> is_file e \<and> endswith (entry_name e) ''.py''
        \<and> entry_name e \<noteq> ''dependency_detective.py''
        \<and> (\<forall>part \<in> set file_path. part \<notin> {''venv'', ''build''})
        \<and> (\<exists>module \<in> extract_imports demo_parse e.
              resolve_package module {''pkg'', ''app''} {''os''}
                [''yaml'' \<mapsto> ''PyYAML'', ''requests'' \<mapsto> []] = Some package
              \<and> package \<noteq> [])}
   \<and> scan_directory demo_parse demo_tree [''/'', ''proj''] [''/'', ''proj''] {''os''}
       {''pkg'', ''app''} ''dependency_detective.py'' {''venv'', ''build''}
       [''yaml'' \<mapsto> ''PyYAML'', ''requests'' \<mapsto> []]
     = {''PyYAML'', ''numpy''}"
  using scan_directory_union [of demo_parse demo_tree "[''/'', ''proj'']" "[''/'', ''proj'']" "{''os''}"
      "{''pkg'', ''app''}" "''dependency_detective.py''" "{''venv'', ''build''}"
      "[''yaml'' \<mapsto> ''PyYAML'', ''requests'' \<mapsto> []]", THEN conjunct1]
  unfolding demo_scan by simp

subsection \<open>Suffix and stem of a name\<close>

lemma rfind_append_py: "rfind (s @ ''.py'') CHR ''.'' = int (length s)"
  by (induction s) (auto simp: Let_def)

lemma suffix_py_iff: "path_suffix name = ''.py'' \<longleftrightarrow> (\<exists>s. s \<noteq> [] \<and> name = s @ ''.py'')"
proof
  assume a: "path_suffix name = ''.py''"
  define i where "i = rfind name CHR ''.''"
  from a have i: "0 < i" "i < int (length name) - 1" and d: "drop (nat i) name = ''.py''"
    unfolding path_suffix_def i_def by (auto simp: Let_def split: if_splits)
  have "name = take (nat i) name @ ''.py''"
    using d append_take_drop_id [of "nat i" name] by simp
  moreover have "take (nat i) name \<noteq> []"
    using i by auto
  ultimately show "\<exists>s. s \<noteq> [] \<and> name = s @ ''.py''" by blast
next
  assume "\<exists>s. s \<noteq> [] \<and> name = s @ ''.py''"
  then obtain s where s: "s \<noteq> []" "name = s @ ''.py''" by blast
  then show "path_suffix name = ''.py''"
    unfolding path_suffix_def s(2) rfind_append_py by (simp add: Let_def)
qed

lemma stem_py: "s \<noteq> [] \<Longrightarrow> path_stem (s @ ''.py'') = s"
  unfolding path_stem_def rfind_append_py by (simp add: Let_def)

subsection \<open>The loop of \<open>find_local_imports\<close>\<close>

lemma scan_item_eq: "scan_item item acc = acc \<union> recorded [item]"
proof -
  have excl: "\<not> (is_dir item \<and> is_file item)" by (cases item) simp_all
  show ?thesis
  proof (cases "is_dir item \<and> path_exists (child (iterdir item) ''__init__.py'')")
    case True
    with excl show ?thesis by (auto simp: scan_item_def recorded_def)
  next
    case False
    show ?thesis
    proof (cases "is_file item \<and> path_suffix (entry_name item) = ''.py''")
      case True
      then obtain s where s: "s \<noteq> []" "entry_name item = s @ ''.py''"
        using suffix_py_iff by blast
      with True False show ?thesis
        by (auto simp: scan_item_def recorded_def stem_py)
    next
      case nf: False
      then have "\<And>s. s \<noteq> [] \<Longrightarrow> is_file item \<Longrightarrow> entry_name item \<noteq> s @ ''.py''"
        using suffix_py_iff by blast
      with False nf show ?thesis
        by (auto simp: scan_item_def recorded_def)
    qed
  qed
qed

lemma recorded_Cons: "recorded (e # es) = recorded [e] \<union> recorded es"
  by (auto simp: recorded_def)

lemma recorded_Nil: "recorded [] = {}"
  by (simp add: recorded_def)

lemma fold_scan_item: "fold scan_item items acc = acc \<union> recorded items"
proof (induction items arbitrary: acc)
  case Nil
  show ?case by (simp add: recorded_Nil)
next
  case (Cons e es)
  show ?case
    unfolding fold_simps Cons.IH scan_item_eq [of e acc] recorded_Cons [of e es]
    by (simp add: Un_assoc)
qed

lemma find_local_imports_recorded:
  "find_local_imports project_root =
     recorded project_root
     \<union> (case child project_root ''src'' of
          Some (Dir n children) \<Rightarrow> recorded children
        | _ \<Rightarrow> {})"
  by (simp add: find_local_imports_def fold_scan_item split: option.split entry.split)

subsection \<open>What lies deeper does not count\<close>

lemma leaf_props [simp]:
  "entry_name (leaf e) = entry_name e" "is_dir (leaf e) = is_dir e" "is_file (leaf e) = is_file e"
  by (cases e; simp)+

lemma keep_children_props [simp]:
  "entry_name (keep_children e) = entry_name e" "is_dir (keep_children e) = is_dir e"
  "is_file (keep_children e) = is_file e"
  by (cases e; simp)+

lemma shallow_item_props [simp]:
  "entry_name (shallow_item e) = entry_name e" "is_dir (shallow_item e) = is_dir e"
  "is_file (shallow_item e) = is_file e"
  by (cases e; simp add: shallow_item_def)+

lemma find_map_name:
  assumes "\<And>e. entry_name (f e) = entry_name e"
  shows "find (\<lambda>e. entry_name e = n) (map f es) = map_option f (find (\<lambda>e. entry_name e = n) es)"
  by (induction es) (simp_all add: assms)

lemma path_exists_leaf: "path_exists (map_option leaf x) = path_exists x"
proof (cases x)
  case None
  then show ?thesis by simp
next
  case (Some e)
  then show ?thesis by (cases e) simp_all
qed

lemma path_exists_keep_children: "path_exists (map_option keep_children x) = path_exists x"
proof (cases x)
  case None
  then show ?thesis by simp
next
  case (Some e)
  then show ?thesis by (cases e) simp_all
qed

lemma has_init_keep_children:
  "path_exists (child (iterdir (keep_children item)) n) = path_exists (child (iterdir item) n)"
proof (cases item)
  case (Dir m cs)
  then show ?thesis
    by (simp add: child_def find_map_name [of leaf] path_exists_leaf)
qed simp_all

lemma has_init_src:
  "path_exists (child (iterdir (Dir m (map keep_children cs))) n)
     = path_exists (child (iterdir (Dir m cs)) n)"
  by (simp add: child_def find_map_name [of keep_children] path_exists_keep_children)

lemma has_init_shallow_item:
  "path_exists (child (iterdir (shallow_item item)) n) = path_exists (child (iterdir item) n)"
proof (cases item)
  case (Dir m cs)
  show ?thesis
  proof (cases "m = ''src''")
    case True
    with Dir show ?thesis
      using has_init_src [of m cs n] by (simp add: shallow_item_def)
  next
    case False
    with Dir show ?thesis
      using has_init_keep_children [of "Dir m cs" n] by (simp add: shallow_item_def)
  qed
qed (simp_all add: shallow_item_def)

lemma recorded_map:
  assumes "\<And>e. entry_name (f e) = entry_name e" "\<And>e. is_dir (f e) = is_dir e"
    "\<And>e. is_file (f e) = is_file e"
    "\<And>e. path_exists (child (iterdir (f e)) ''__init__.py'')
        = path_exists (child (iterdir e) ''__init__.py'')"
  shows "recorded (map f es) = recorded es"
proof (induction es)
  case Nil
  show ?case by simp
next
  case (Cons e es)
  have "recorded [f e] = recorded [e]"
    unfolding recorded_def by (simp add: assms)
  then show ?case
    using Cons recorded_Cons [of "f e" "map f es"] recorded_Cons [of e es] by simp
qed

lemma recorded_keep_children: "recorded (map keep_children es) = recorded es"
  by (rule recorded_map) (simp_all add: has_init_keep_children)

lemma recorded_shallow_view: "recorded (shallow_view es) = recorded es"
  unfolding shallow_view_def
  by (rule recorded_map) (simp_all add: has_init_shallow_item)

lemma src_shallow_view:
  "(case child (shallow_view es) ''src'' of Some (Dir n children) \<Rightarrow> recorded children | _ \<Rightarrow> {})
   = (case child es ''src'' of Some (Dir n children) \<Rightarrow> recorded children | _ \<Rightarrow> {})"
proof -
  have c: "child (shallow_view es) ''src'' = map_option shallow_item (child es ''src'')"
    unfolding child_def shallow_view_def by (rule find_map_name) simp
  show ?thesis
  proof (cases "child es ''src''")
    case None
    then show ?thesis by (simp add: c)
  next
    case (Some e)
    then have nm: "entry_name e = ''src''"
      unfolding child_def by (auto simp: find_Some_iff)
    show ?thesis
    proof (cases e)
      case (Dir m cs)
      with nm have "m = ''src''" by simp
      with Some Dir show ?thesis by (simp add: c shallow_item_def recorded_keep_children)
    qed (simp_all add: Some c shallow_item_def)
  qed
qed

lemma find_local_imports_shallow_view:
  "find_local_imports (shallow_view project_root) = find_local_imports project_root"
  unfolding find_local_imports_recorded recorded_shallow_view src_shallow_view ..

lemma demo_local_imports:
  "find_local_imports demo_tree = {''pkg'', ''app'', ''dependency_detective'', ''broken'', ''lib'', ''core''}"
  unfolding demo_tree_def
  by (auto simp add: find_local_imports_def scan_item_def child_def path_suffix_def path_stem_def
      Let_def)

subsection \<open>C9: only two levels are inspected\<close>

text \<open>
  C9. \<open>find_local_imports\<close> is not recursive. Its result is made of the entries of the
  project root and, when \<^verbatim>\<open>src\<close> is a directory of the root, of the entries of
  \<^verbatim>\<open>src\<close>: a directory among them is recorded by its name exactly when it holds an
  existing \<^verbatim>\<open>__init__.py\<close>, and a regular file among them whose suffix is \<^verbatim>\<open>.py\<close> by
  its stem. Nothing deeper is inspected: the result is the same when every directory below
  these levels is emptied. So a module name that only a deeper package bears is not in the
  result, and unless the blacklist holds it, \<open>resolve_package\<close> gives a package to install
  for it, as for a third-party module.
\<close>

theorem find_local_imports_shallow:
  "find_local_imports project_root =
     recorded project_root
     \<union> (case child project_root ''src'' of
          Some (Dir n children) \<Rightarrow> recorded children
        | _ \<Rightarrow> {})
   \<and> find_local_imports (shallow_view project_root) = find_local_imports project_root
   \<and> (module \<notin> recorded project_root
        \<and> module \<notin> (case child project_root ''src'' of
                        Some (Dir n children) \<Rightarrow> recorded children
                      | _ \<Rightarrow> {})
        \<and> module \<notin> blacklist
      \<longrightarrow> module \<notin> find_local_imports project_root
          \<and> resolve_package module (find_local_imports project_root) blacklist package_mappings
              = Some (dict_get package_mappings module module))"
  using find_local_imports_recorded [of project_root]
    find_local_imports_shallow_view [of project_root]
  by (simp add: resolve_package_def)

theorem find_local_imports_shallow_witness:
  "find_local_imports demo_tree
     = {''pkg'', ''app'', ''dependency_detective'', ''broken'', ''lib'', ''core''}
   \<and> find_local_imports (shallow_view demo_tree) = find_local_imports demo_tree
   \<and> ''inner'' \<notin> find_local_imports demo_tree
   \<and> resolve_package ''inner'' (find_local_imports demo_tree) {''os''} [''yaml'' \<mapsto> ''PyYAML'']
       = Some ''inner''"
proof -
  have r: "recorded demo_tree \<union> (case child demo_tree ''src'' of
          Some (Dir n children) \<Rightarrow> recorded children | _ \<Rightarrow> {})
      = {''pkg'', ''app'', ''dependency_detective'', ''broken'', ''lib'', ''core''}"
    using find_local_imports_recorded [of demo_tree] demo_local_imports by simp
  have "''inner'' \<notin> recorded demo_tree \<union> (case child demo_tree ''src'' of
          Some (Dir n children) \<Rightarrow> recorded children | _ \<Rightarrow> {})"
    unfolding r by simp
  then have n: "''inner'' \<notin> recorded demo_tree"
    "''inner'' \<notin> (case child demo_tree ''src'' of
          Some (Dir n children) \<Rightarrow> recorded children | _ \<Rightarrow> {})"
    by simp_all
  note t = find_local_imports_shallow [of demo_tree "''inner''" "{''os''}" "[''yaml'' \<mapsto> ''PyYAML'']",
      THEN conjunct2]
  from t have sv: "find_local_imports (shallow_view demo_tree) = find_local_imports demo_tree"
    by (rule conjunct1)
  from t n have ni: "''inner'' \<notin> find_local_imports demo_tree"
    and rp: "resolve_package ''inner'' (find_local_imports demo_tree) {''os''} [''yaml'' \<mapsto> ''PyYAML'']
       = Some (dict_get [''yaml'' \<mapsto> ''PyYAML''] ''inner'' ''inner'')"
    by simp_all
  have "dict_get [''yaml'' \<mapsto> ''PyYAML''] ''inner'' ''inner'' = ''inner''"
    by (simp add: dict_get_def)
  with sv ni rp demo_local_imports show ?thesis
    by (simp only: simp_thms)
qed

subsection \<open>The loop of \<open>install_dependencies\<close>\<close>

lemma install_loop_spec:
  assumes "\<forall>i < length deps. os (length trace + i) \<noteq> NotStarted"
  shows "install_loop os python_exe deps failed trace =
     (Inr (failed @ nths deps {i. install_failed (os (length trace + i))}),
      trace @ map (PipInstall python_exe) deps)"
  using assms
proof (induction deps arbitrary: failed trace)
  case Nil
  show ?case by simp
next
  case (Cons dep deps)
  from Cons.prems have first: "os (length trace) \<noteq> NotStarted"
    by auto
  from Cons.prems have rest:
    "\<forall>i < length deps. os (length (trace @ [PipInstall python_exe dep]) + i) \<noteq> NotStarted"
    by auto
  have shift: "{j. Suc j \<in> {i. install_failed (os (length trace + i))}}
      = {i. install_failed (os (length (trace @ [PipInstall python_exe dep]) + i))}"
    by simp
  show ?case
  proof (cases "os (length trace)")
    case NotStarted
    with first show ?thesis by simp
  next
    case (Exited rc)
    show ?thesis
    proof (cases "rc = 0")
      case True
      with Exited have nf: "\<not> install_failed (os (length trace))"
        by (simp add: install_failed_def)
      have "install_loop os python_exe (dep # deps) failed trace
          = install_loop os python_exe deps failed (trace @ [PipInstall python_exe dep])"
        using Exited True by (simp add: check_call_def)
      also have "\<dots> = (Inr (failed @ nths deps
            {i. install_failed (os (length (trace @ [PipInstall python_exe dep]) + i))}),
          (trace @ [PipInstall python_exe dep]) @ map (PipInstall python_exe) deps)"
        by (rule Cons.IH [OF rest])
      also have "\<dots> = (Inr (failed @ nths (dep # deps) {i. install_failed (os (length trace + i))}),
          trace @ map (PipInstall python_exe) (dep # deps))"
        unfolding nths_Cons shift using nf by simp
      finally show ?thesis .
    next
      case False
      with Exited have f: "install_failed (os (length trace))"
        by (simp add: install_failed_def)
      have "install_loop os python_exe (dep # deps) failed trace
          = install_loop os python_exe deps (failed @ [dep]) (trace @ [PipInstall python_exe dep])"
        using Exited False by (simp add: check_call_def)
      also have "\<dots> = (Inr ((failed @ [dep]) @ nths deps
            {i. install_failed (os (length (trace @ [PipInstall python_exe dep]) + i))}),
          (trace @ [PipInstall python_exe dep]) @ map (PipInstall python_exe) deps)"
        by (rule Cons.IH [OF rest])
      also have "\<dots> = (Inr (failed @ nths (dep # deps) {i. install_failed (os (length trace + i))}),
          trace @ map (PipInstall python_exe) (dep # deps))"
        unfolding nths_Cons shift using f by simp
      finally show ?thesis .
    qed
  qed
qed

lemma nths_empty_iff: "nths xs A = [] \<longleftrightarrow> (\<forall>i < length xs. i \<notin> A)"
proof -
  have "nths xs A = [] \<longleftrightarrow> set (nths xs A) = {}" by simp
  also have "\<dots> \<longleftrightarrow> (\<forall>i < length xs. i \<notin> A)"
    unfolding set_nths by auto
  finally show ?thesis .
qed

lemma install_loop_first_not_started:
  assumes "k < length deps" "os (length trace + k) = NotStarted"
    "\<forall>i < k. os (length trace + i) \<noteq> NotStarted"
  shows "install_loop os python_exe deps failed trace =
     (Inl FileNotFoundError, trace @ map (PipInstall python_exe) (take (Suc k) deps))"
  using assms
proof (induction deps arbitrary: k failed trace)
  case Nil
  then show ?case by simp
next
  case (Cons dep deps)
  show ?case
  proof (cases k)
    case 0
    with Cons.prems have "os (length trace) = NotStarted" by simp
    then show ?thesis using 0 by (simp add: check_call_def)
  next
    case (Suc k')
    with Cons.prems have k': "k' < length deps"
      and ns: "os (length (trace @ [PipInstall python_exe dep]) + k') = NotStarted"
      by simp_all
    from Cons.prems Suc have first: "os (length trace) \<noteq> NotStarted"
      by (metis add.right_neutral zero_less_Suc)
    have before: "\<forall>i < k'. os (length (trace @ [PipInstall python_exe dep]) + i) \<noteq> NotStarted"
    proof (intro allI impI)
      fix i assume "i < k'"
      then have "Suc i < k" using Suc by simp
      with Cons.prems(3) have "os (length trace + Suc i) \<noteq> NotStarted" by blast
      then show "os (length (trace @ [PipInstall python_exe dep]) + i) \<noteq> NotStarted" by simp
    qed
    from first obtain rc where rc: "os (length trace) = Exited rc"
      by (cases "os (length trace)") auto
    let ?failed = "if rc = 0 then failed else failed @ [dep]"
    have "install_loop os python_exe (dep # deps) failed trace
        = install_loop os python_exe deps ?failed (trace @ [PipInstall python_exe dep])"
      using rc by (cases "rc = 0") (simp_all add: check_call_def)
    also have "\<dots> = (Inl FileNotFoundError,
        (trace @ [PipInstall python_exe dep]) @ map (PipInstall python_exe) (take (Suc k') deps))"
      by (rule Cons.IH [OF k' ns before])
    also have "\<dots> = (Inl FileNotFoundError,
        trace @ map (PipInstall python_exe) (take (Suc k) (dep # deps)))"
      using Suc by simp
    finally show ?thesis .
  qed
qed

lemma first_not_started:
  fixes os :: world and m n :: nat
  assumes "\<exists>i < n. os (m + i) = NotStarted"
  shows "\<exists>k < n. os (m + k) = NotStarted \<and> (\<forall>i < k. os (m + i) \<noteq> NotStarted)"
proof -
  define k where "k = (LEAST i. os (m + i) = NotStarted)"
  from assms obtain j where j: "j < n" "os (m + j) = NotStarted" by blast
  from j(2) have a: "os (m + k) = NotStarted"
    unfolding k_def by (rule LeastI [of "\<lambda>i. os (m + i) = NotStarted"])
  have "k \<le> j"
    unfolding k_def using j(2) by (rule Least_le)
  with j(1) have b: "k < n" by simp
  have c: "\<forall>i < k. os (m + i) \<noteq> NotStarted"
  proof (intro allI impI)
    fix i assume "i < k"
    then show "os (m + i) \<noteq> NotStarted"
      unfolding k_def by (rule not_less_Least)
  qed
  from a b c show ?thesis by blast
qed

subsection \<open>C10: the failed installations are returned\<close>

text \<open>
  C10, as the specification states it, fails: the loop catches \<^verbatim>\<open>CalledProcessError\<close>
  and nothing else. When the interpreter cannot be started for the second of three
  dependencies, \<^verbatim>\<open>check_call\<close> raises \<^verbatim>\<open>FileNotFoundError\<close>, the exception leaves
  \<open>install_dependencies\<close>, the third dependency is never tried and nothing is returned.
\<close>

theorem install_dependencies_claimed_counterexample:
  "install_dependencies (\<lambda>i. if i = 1 then NotStarted else Exited 0)
     [''requests'', ''numpy'', ''PyYAML''] ''python'' []
   = (Inl FileNotFoundError, [PipInstall ''python'' ''requests'', PipInstall ''python'' ''numpy''])
   \<and> \<not> install_dependencies_claimed (\<lambda>i. if i = 1 then NotStarted else Exited 0)
     [''requests'', ''numpy'', ''PyYAML''] ''python'' []"
proof -
  have e: "install_dependencies (\<lambda>i. if i = 1 then NotStarted else Exited 0)
     [''requests'', ''numpy'', ''PyYAML''] ''python'' []
   = (Inl FileNotFoundError, [PipInstall ''python'' ''requests'', PipInstall ''python'' ''numpy''])"
    by (simp add: install_dependencies_def check_call_def)
  then show ?thesis
    unfolding install_dependencies_claimed_def by simp
qed

text \<open>
  C10, amended. \<open>install_dependencies\<close> tries the dependencies of its list in order and
  does not stop at a called-process error. When pip can be started for every dependency, it
  starts one installation for each of them and returns exactly the dependencies whose
  installation raised a called-process error, in the order of the list (\<open>nths\<close> keeps the
  elements at the given positions); what it returns is empty if and only if every
  installation ended with return code 0. When an installation cannot be started, the
  exception of the first such installation leaves the function: the dependencies up to
  that one have been tried, the later ones have not, and no list is returned.
\<close>

theorem install_dependencies_spec:
  "(if \<forall>i < length deps. os (length trace + i) \<noteq> NotStarted
    then install_dependencies os deps python_exe trace =
           (Inr (nths deps {i. install_failed (os (length trace + i))}),
            trace @ map (PipInstall python_exe) deps)
         \<and> subseq (nths deps {i. install_failed (os (length trace + i))}) deps
         \<and> (nths deps {i. install_failed (os (length trace + i))} = []
              \<longleftrightarrow> (\<forall>i < length deps. os (length trace + i) = Exited 0))
    else \<exists>k < length deps.
           os (length trace + k) = NotStarted
           \<and> (\<forall>i < k. os (length trace + i) \<noteq> NotStarted)
           \<and> install_dependencies os deps python_exe trace =
               (Inl FileNotFoundError,
                trace @ map (PipInstall python_exe) (take (Suc k) deps)))"
proof (cases "\<forall>i < length deps. os (length trace + i) \<noteq> NotStarted")
  case True
  let ?f = "nths deps {i. install_failed (os (length trace + i))}"
  have "install_dependencies os deps python_exe trace =
        (Inr ?f, trace @ map (PipInstall python_exe) deps)"
    unfolding install_dependencies_def using install_loop_spec [OF True, of python_exe "[]"] by simp
  moreover have "subseq ?f deps"
    unfolding subseq_conv_nths by blast
  moreover have "?f = [] \<longleftrightarrow> (\<forall>i < length deps. os (length trace + i) = Exited 0)"
  proof -
    have "install_failed (os (length trace + i)) \<longleftrightarrow> os (length trace + i) \<noteq> Exited 0"
      if "i < length deps" for i
      using True that by (cases "os (length trace + i)") (auto simp: install_failed_def)
    then show ?thesis unfolding nths_empty_iff by auto
  qed
  ultimately show ?thesis using True by simp
next
  case False
  then have "\<exists>i < length deps. os (length trace + i) = NotStarted" by blast
  from first_not_started [OF this] obtain k where k: "k < length deps"
    "os (length trace + k) = NotStarted" "\<forall>i < k. os (length trace + i) \<noteq> NotStarted"
    by blast
  from install_loop_first_not_started [OF k, of python_exe "[]"]
  have "install_dependencies os deps python_exe trace =
      (Inl FileNotFoundError, trace @ map (PipInstall python_exe) (take (Suc k) deps))"
    by (simp add: install_dependencies_def)
  with k False show ?thesis by auto
qed

theorem install_dependencies_spec_witness:
  "install_dependencies (\<lambda>i. if i = 1 then Exited 1 else Exited 0)
     [''requests'', ''nosuchpkg'', ''numpy''] ''python'' []
   = (Inr [''nosuchpkg''],
      [PipInstall ''python'' ''requests'', PipInstall ''python'' ''nosuchpkg'',
       PipInstall ''python'' ''numpy''])
   \<and> nths [''requests'', ''nosuchpkg'', ''numpy'']
        {i. install_failed (if i = 1 then Exited 1 else Exited 0)} = [''nosuchpkg'']
   \<and> install_dependencies (\<lambda>i. if i = 1 then NotStarted else Exited 1)
     [''requests'', ''numpy'', ''PyYAML''] ''python'' []
   = (Inl FileNotFoundError, [PipInstall ''python'' ''requests'', PipInstall ''python'' ''numpy''])"
proof -
  let ?os = "\<lambda>i::nat. if i = 1 then Exited 1 else Exited 0"
  let ?deps = "[''requests'', ''nosuchpkg'', ''numpy'']"
  let ?os2 = "\<lambda>i::nat. if i = 1 then NotStarted else Exited 1"
  let ?deps2 = "[''requests'', ''numpy'', ''PyYAML'']"
  have e: "install_dependencies ?os ?deps ''python'' []
      = (Inr [''nosuchpkg''],
         [PipInstall ''python'' ''requests'', PipInstall ''python'' ''nosuchpkg'',
          PipInstall ''python'' ''numpy''])"
    by (simp add: install_dependencies_def check_call_def)
  have h: "\<forall>i < length ?deps. ?os (length ([] :: action list) + i) \<noteq> NotStarted"
    by simp
  from install_dependencies_spec [of ?deps ?os "[]" "''python''"] h
  have "install_dependencies ?os ?deps ''python'' [] =
      (Inr (nths ?deps {i. install_failed (?os (length ([] :: action list) + i))}),
       [] @ map (PipInstall ''python'') ?deps)"
    by argo
  with e have a: "nths ?deps {i. install_failed (?os i)} = [''nosuchpkg'']"
    by simp
  have nh: "\<not> (\<forall>i < length ?deps2. ?os2 (length ([] :: action list) + i) \<noteq> NotStarted)"
    by (auto intro: exI [of _ 1])
  from install_dependencies_spec [of ?deps2 ?os2 "[]" "''python''"] nh
  have "\<exists>k < length ?deps2.
           ?os2 (length ([] :: action list) + k) = NotStarted
           \<and> (\<forall>i < k. ?os2 (length ([] :: action list) + i) \<noteq> NotStarted)
           \<and> install_dependencies ?os2 ?deps2 ''python'' [] =
               (Inl FileNotFoundError,
                [] @ map (PipInstall ''python'') (take (Suc k) ?deps2))"
    by argo
  then obtain k where k: "k < length ?deps2" "?os2 k = NotStarted"
    and r: "install_dependencies ?os2 ?deps2 ''python'' [] =
      (Inl FileNotFoundError, map (PipInstall ''python'') (take (Suc k) ?deps2))"
    by auto
  from k(2) have "k = 1" by (simp split: if_splits)
  with r have b: "install_dependencies ?os2 ?deps2 ''python'' [] =
      (Inl FileNotFoundError, [PipInstall ''python'' ''requests'', PipInstall ''python'' ''numpy''])"
    by simp
  from e a b show ?thesis by simp
qed

subsection \<open>The dictionary of installed packages\<close>

lemma fold_upd_dom:
  "dom (fold (\<lambda>pkg d. d(f pkg \<mapsto> g pkg)) packages d0) = dom d0 \<union> f ` set packages"
  by (induction packages arbitrary: d0) auto

lemma fold_upd_notin:
  "k \<notin> f ` set packages \<Longrightarrow> fold (\<lambda>pkg d. d(f pkg \<mapsto> g pkg)) packages d0 k = d0 k"
  by (induction packages arbitrary: d0) auto

lemma fold_upd_distinct:
  "distinct (map f packages) \<Longrightarrow> pkg \<in> set packages
     \<Longrightarrow> fold (\<lambda>pkg d. d(f pkg \<mapsto> g pkg)) packages d0 (f pkg) = Some (g pkg)"
proof (induction packages arbitrary: d0)
  case Nil
  then show ?case by simp
next
  case (Cons p ps)
  show ?case
  proof (cases "pkg \<in> set ps")
    case True
    with Cons show ?thesis by simp
  next
    case False
    with Cons.prems have eq: "pkg = p" and ni: "f p \<notin> f ` set ps" by auto
    have "fold (\<lambda>pkg d. d(f pkg \<mapsto> g pkg)) (p # ps) d0 (f p)
        = fold (\<lambda>pkg d. d(f pkg \<mapsto> g pkg)) ps (d0(f p \<mapsto> g p)) (f p)"
      by (simp only: fold_Cons comp_apply)
    also have "\<dots> = (d0(f p \<mapsto> g p)) (f p)"
      by (rule fold_upd_notin [OF ni])
    also have "\<dots> = Some (g p)" by simp
    finally show ?thesis unfolding eq .
  qed
qed

subsection \<open>C4: which dependencies are missing\<close>

text \<open>
  C4. After the reconciliation a dependency is in \<^verbatim>\<open>missing_deps\<close> if and only if it is
  a required dependency and its lowercased name is not a key of the dictionary of installed
  packages; \<^verbatim>\<open>required_deps\<close> is what it was before. When the dictionary is the one
  \<open>get_installed_packages\<close> makes of the list of pip, its keys are the lowercased names of
  the list, and it maps the lowercased name of each package of the list to its version
  (pip lists a package once: no two names of the list are equal in lower case).
\<close>

theorem reconcile_spec:
  "(dep \<in> set (missing_deps (reconcile s))
      \<longleftrightarrow> dep \<in> set (required_deps s) \<and> lower dep \<notin> dom (installed_deps s))
   \<and> required_deps (reconcile s) = required_deps s
   \<and> installed_deps (reconcile s) = installed_deps s
   \<and> (\<forall>packages. get_installed_packages (Inr packages) = Inr (installed_deps s) \<longrightarrow>
         dom (installed_deps s) = (\<lambda>pkg. lower (fst pkg)) ` set packages
         \<and> (distinct (map (\<lambda>pkg. lower (fst pkg)) packages) \<longrightarrow>
              (\<forall>pkg \<in> set packages. installed_deps s (lower (fst pkg)) = Some (snd pkg))))"
proof (intro conjI allI impI)
  show "dep \<in> set (missing_deps (reconcile s))
      \<longleftrightarrow> dep \<in> set (required_deps s) \<and> lower dep \<notin> dom (installed_deps s)"
    by (auto simp: reconcile_def)
  show "required_deps (reconcile s) = required_deps s"
    by (simp add: reconcile_def)
  show "installed_deps (reconcile s) = installed_deps s"
    by (simp add: reconcile_def)
next
  fix packages
  assume "get_installed_packages (Inr packages) = Inr (installed_deps s)"
  then have d: "installed_deps s = fold (\<lambda>pkg d. d(lower (fst pkg) \<mapsto> snd pkg)) packages Map.empty"
    by (simp add: get_installed_packages_def)
  show "dom (installed_deps s) = (\<lambda>pkg. lower (fst pkg)) ` set packages"
    unfolding d fold_upd_dom by simp
  assume "distinct (map (\<lambda>pkg. lower (fst pkg)) packages)"
  then show "\<forall>pkg \<in> set packages. installed_deps s (lower (fst pkg)) = Some (snd pkg)"
    unfolding d using fold_upd_distinct [of "\<lambda>pkg. lower (fst pkg)" packages _ snd Map.empty]
    by blast
qed

lemma demo_lower: "lower ''PyYAML'' = ''pyyaml''" "lower ''numpy'' = ''numpy''"
  "lower ''requests'' = ''requests''" "lower ''pip'' = ''pip''"
  by (simp_all add: lower_def lower_char_def)

lemma demo_installed:
  "get_installed_packages (Inr [(''PyYAML'', ''6.0''), (''pip'', ''24.0'')])
     = Inr [''pyyaml'' \<mapsto> ''6.0'', ''pip'' \<mapsto> ''24.0'']"
  by (simp add: get_installed_packages_def demo_lower)

theorem reconcile_spec_witness:
  "''numpy'' \<in> set (missing_deps (reconcile
       \<lparr>required_deps = [''PyYAML'', ''numpy''],
        installed_deps = [''pyyaml'' \<mapsto> ''6.0'', ''pip'' \<mapsto> ''24.0''], missing_deps = []\<rparr>))
   \<and> ''PyYAML'' \<notin> set (missing_deps (reconcile
       \<lparr>required_deps = [''PyYAML'', ''numpy''],
        installed_deps = [''pyyaml'' \<mapsto> ''6.0'', ''pip'' \<mapsto> ''24.0''], missing_deps = []\<rparr>))
   \<and> required_deps (reconcile
       \<lparr>required_deps = [''PyYAML'', ''numpy''],
        installed_deps = [''pyyaml'' \<mapsto> ''6.0'', ''pip'' \<mapsto> ''24.0''], missing_deps = []\<rparr>)
       = [''PyYAML'', ''numpy'']
   \<and> get_installed_packages (Inr [(''PyYAML'', ''6.0''), (''pip'', ''24.0'')])
       = Inr [''pyyaml'' \<mapsto> ''6.0'', ''pip'' \<mapsto> ''24.0'']
   \<and> [''pyyaml'' \<mapsto> ''6.0'', ''pip'' \<mapsto> ''24.0''] (lower ''PyYAML'') = Some ''6.0''"
proof -
  let ?s = "\<lparr>required_deps = [''PyYAML'', ''numpy''],
        installed_deps = [''pyyaml'' \<mapsto> ''6.0'', ''pip'' \<mapsto> ''24.0''], missing_deps = []\<rparr>"
  from reconcile_spec [of "''numpy''" ?s] have a: "''numpy'' \<in> set (missing_deps (reconcile ?s))"
    by (simp add: demo_lower)
  from reconcile_spec [of "''PyYAML''" ?s] have b: "''PyYAML'' \<notin> set (missing_deps (reconcile ?s))"
    and c: "required_deps (reconcile ?s) = [''PyYAML'', ''numpy'']"
    by (simp_all add: demo_lower)
  from a b c demo_installed show ?thesis
    by (simp add: demo_lower)
qed

subsection \<open>C7: the latest version of a package\<close>

text \<open>
  C7. For every package name, \<open>get_latest_version\<close> returns \<^verbatim>\<open>None\<close> or the version
  found under the keys \<^verbatim>\<open>info\<close> and \<^verbatim>\<open>version\<close> of the JSON body of the answer of the
  index. When the request fails (no connection), runs out of time, or is answered with a
  status from 400 to 599, it returns \<^verbatim>\<open>None\<close>; the function has no exception among its
  results.
\<close>

theorem get_latest_version_spec:
  "(get_latest_version pypi package_name = None
     \<or> (\<exists>r data info version.
           pypi (pypi_url package_name) = Inr r \<and> body r = Some data
           \<and> data ''info'' = Some info \<and> info ''version'' = Some version
           \<and> get_latest_version pypi package_name = Some version))
   \<and> ((pypi (pypi_url package_name) = Inl ConnectionError
        \<or> pypi (pypi_url package_name) = Inl Timeout
        \<or> (\<exists>r. pypi (pypi_url package_name) = Inr r
               \<and> 400 \<le> status_code r \<and> status_code r < 600))
       \<longrightarrow> get_latest_version pypi package_name = None)"
proof
  show "get_latest_version pypi package_name = None
     \<or> (\<exists>r data info version.
           pypi (pypi_url package_name) = Inr r \<and> body r = Some data
           \<and> data ''info'' = Some info \<and> info ''version'' = Some version
           \<and> get_latest_version pypi package_name = Some version)"
  proof (cases "get_latest_version pypi package_name")
    case None
    then show ?thesis by simp
  next
    case (Some version)
    then obtain r data where r: "pypi (pypi_url package_name) = Inr r"
      "body r = Some data" "dict_get data ''info'' Map.empty ''version'' = Some version"
      by (auto simp: get_latest_version_def fetch_version_def response_json_def
          split: sum.splits option.splits)
    from r(3) obtain info where "data ''info'' = Some info" "info ''version'' = Some version"
      by (cases "data ''info''") (simp_all add: dict_get_def)
    with r Some show ?thesis by blast
  qed
  show "(pypi (pypi_url package_name) = Inl ConnectionError
        \<or> pypi (pypi_url package_name) = Inl Timeout
        \<or> (\<exists>r. pypi (pypi_url package_name) = Inr r
               \<and> 400 \<le> status_code r \<and> status_code r < 600))
       \<longrightarrow> get_latest_version pypi package_name = None"
    by (auto simp: get_latest_version_def fetch_version_def raise_for_status_def)
qed

lemma demo_versions:
  "get_latest_version demo_index ''requests'' = Some ''2.31.0''"
  "get_latest_version demo_index ''numpy'' = None"
  "get_latest_version demo_index ''PyYAML'' = None"
  by (simp_all add: get_latest_version_def fetch_version_def raise_for_status_def
      response_json_def dict_get_def pypi_url_def demo_index_def)

theorem get_latest_version_spec_witness:
  "demo_index (pypi_url ''numpy'') = Inl Timeout
   \<and> get_latest_version demo_index ''numpy'' = None
   \<and> demo_index (pypi_url ''PyYAML'') = Inr \<lparr>status_code = 404, body = None\<rparr>
   \<and> get_latest_version demo_index ''PyYAML'' = None
   \<and> get_latest_version demo_index ''requests'' = Some ''2.31.0''"
proof -
  have t: "demo_index (pypi_url ''numpy'') = Inl Timeout"
    by (simp add: demo_index_def pypi_url_def)
  have s: "demo_index (pypi_url ''PyYAML'') = Inr \<lparr>status_code = 404, body = None\<rparr>"
    by (simp add: demo_index_def pypi_url_def)
  from get_latest_version_spec [of demo_index "''numpy''"] t
  have "get_latest_version demo_index ''numpy'' = None" by simp
  moreover from get_latest_version_spec [of demo_index "''PyYAML''"] s
  have "get_latest_version demo_index ''PyYAML'' = None" by simp
  ultimately show ?thesis
    using t s demo_versions(1) by simp
qed

subsection \<open>C6: the lines of the requirements file\<close>

lemma requirement_line_spec:
  "requirement_line pypi installed_packages dep = spec_line pypi installed_packages dep"
  by (auto simp: requirement_line_def spec_line_def pinned_version_def truthy_def Let_def
      split: option.splits)

text \<open>
  C6. When \<^verbatim>\<open>requirements.txt\<close> can be opened, \<open>generate_requirements_file\<close> writes one
  line for each required dependency and no other, in the sorted order of the names of the
  dependencies. The line of a dependency is \<^verbatim>\<open>name==version\<close>, with the version that the
  dictionary of installed packages has under the lowercased name when it has one, else the
  latest version of the index when the lookup yields one, and it is the bare name when
  neither yields a version (a version is a string that is not empty).
\<close>

theorem generate_requirements_file_spec:
  assumes "finite dependencies"
  shows "\<exists>deps. generate_requirements_file pypi True dependencies installed_packages
        = Some (map (spec_line pypi installed_packages) deps)
      \<and> set deps = dependencies \<and> distinct deps \<and> sorted deps
      \<and> length deps = card dependencies"
proof -
  let ?deps = "sorted_list_of_set dependencies"
  have "generate_requirements_file pypi True dependencies installed_packages
        = Some (map (spec_line pypi installed_packages) ?deps)"
    unfolding generate_requirements_file_def
    by (simp add: requirement_line_spec [abs_def])
  moreover have "set ?deps = dependencies" "distinct ?deps" "sorted ?deps"
    "length ?deps = card dependencies"
    using assms by simp_all
  ultimately show ?thesis by blast
qed

lemma demo_sorted:
  "sorted_list_of_set {''requests'', ''PyYAML'', ''numpy''} = [''PyYAML'', ''numpy'', ''requests'']"
proof -
  have "{''requests'', ''PyYAML'', ''numpy''} = set [''requests'', ''PyYAML'', ''numpy'']" by simp
  then show ?thesis by (simp only: sorted_list_of_set_sort_remdups) simp
qed

lemma demo_lines:
  "map (spec_line demo_index [''pyyaml'' \<mapsto> ''6.0'', ''pip'' \<mapsto> ''24.0''])
     [''PyYAML'', ''numpy'', ''requests'']
   = [''PyYAML==6.0'' @ [CHR 0x0A], ''numpy'' @ [CHR 0x0A], ''requests==2.31.0'' @ [CHR 0x0A]]"
  by (simp add: spec_line_def pinned_version_def truthy_def demo_lower demo_versions)

theorem generate_requirements_file_spec_witness:
  "finite {''requests'', ''PyYAML'', ''numpy''}
   \<and> generate_requirements_file demo_index True {''requests'', ''PyYAML'', ''numpy''}
       [''pyyaml'' \<mapsto> ''6.0'', ''pip'' \<mapsto> ''24.0'']
     = Some [''PyYAML==6.0'' @ [CHR 0x0A], ''numpy'' @ [CHR 0x0A],
             ''requests==2.31.0'' @ [CHR 0x0A]]"
proof -
  have f: "finite {''requests'', ''PyYAML'', ''numpy''}" by simp
  from generate_requirements_file_spec [OF f, of demo_index "[''pyyaml'' \<mapsto> ''6.0'', ''pip'' \<mapsto> ''24.0'']"]
  obtain deps where d: "generate_requirements_file demo_index True {''requests'', ''PyYAML'', ''numpy''}
        [''pyyaml'' \<mapsto> ''6.0'', ''pip'' \<mapsto> ''24.0'']
      = Some (map (spec_line demo_index [''pyyaml'' \<mapsto> ''6.0'', ''pip'' \<mapsto> ''24.0'']) deps)"
    and s: "set deps = {''requests'', ''PyYAML'', ''numpy''}" "distinct deps" "sorted deps"
    by blast
  from s have "deps = sorted_list_of_set {''requests'', ''PyYAML'', ''numpy''}"
    using sorted_list_of_set.idem_if_sorted_distinct by metis
  then have "deps = [''PyYAML'', ''numpy'', ''requests'']"
    by (simp only: demo_sorted)
  with d f show ?thesis
    by (simp only: demo_lines)
qed

subsection \<open>Subprocesses of a run\<close>

lemma check_call_ok: "os (length trace) = Exited 0 \<Longrightarrow> check_call os a trace = (Inr (), trace @ [a])"
  by (simp add: check_call_def)

lemma check_call_fail:
  "os (length trace) \<noteq> Exited 0 \<Longrightarrow> \<exists>exc. check_call os a trace = (Inl exc, trace @ [a])"
  by (cases "os (length trace)") (auto simp: check_call_def)

lemma on_called_process_error_failed:
  "on_called_process_error exc \<noteq> Returned \<and> on_called_process_error exc \<noteq> Exit 0"
  by (simp add: on_called_process_error_def)

lemma install_each_ok:
  "\<forall>i < length deps. os (length trace + i) = Exited 0
     \<Longrightarrow> install_each os python deps trace = (Inr (), trace @ map (PipInstall python) deps)"
proof (induction deps arbitrary: trace)
  case Nil
  show ?case by simp
next
  case (Cons dep deps)
  from Cons.prems have "os (length trace) = Exited 0" by auto
  then have c: "check_call os (PipInstall python dep) trace = (Inr (), trace @ [PipInstall python dep])"
    by (rule check_call_ok)
  from Cons.prems have "\<forall>i < length deps. os (length (trace @ [PipInstall python dep]) + i) = Exited 0"
    by auto
  from Cons.IH [OF this] c show ?case by simp
qed

lemma install_each_fail:
  "\<exists>i < length deps. os (length trace + i) \<noteq> Exited 0
     \<Longrightarrow> \<exists>exc n. install_each os python deps trace
           = (Inl exc, trace @ map (PipInstall python) (take n deps))"
proof (induction deps arbitrary: trace)
  case Nil
  then show ?case by simp
next
  case (Cons dep deps)
  show ?case
  proof (cases "os (length trace) = Exited 0")
    case False
    then obtain exc where "check_call os (PipInstall python dep) trace
        = (Inl exc, trace @ [PipInstall python dep])"
      using check_call_fail by blast
    then have "install_each os python (dep # deps) trace
        = (Inl exc, trace @ map (PipInstall python) (take 1 (dep # deps)))"
      by simp
    then show ?thesis by blast
  next
    case True
    then have c: "check_call os (PipInstall python dep) trace = (Inr (), trace @ [PipInstall python dep])"
      by (rule check_call_ok)
    from Cons.prems True obtain i where "i < length (dep # deps)" "os (length trace + i) \<noteq> Exited 0" "i \<noteq> 0"
      by (metis add.right_neutral)
    then have "\<exists>j < length deps. os (length (trace @ [PipInstall python dep]) + j) \<noteq> Exited 0"
      by (cases i) auto
    from Cons.IH [OF this] obtain exc n where
      "install_each os python deps (trace @ [PipInstall python dep])
        = (Inl exc, (trace @ [PipInstall python dep]) @ map (PipInstall python) (take n deps))"
      by blast
    with c have "install_each os python (dep # deps) trace
        = (Inl exc, trace @ map (PipInstall python) (take (Suc n) (dep # deps)))"
      by simp
    then show ?thesis by blast
  qed
qed

lemma install_loop_not_started:
  "\<exists>i < length deps. os (length trace + i) = NotStarted
     \<Longrightarrow> \<exists>exc n. install_loop os python_exe deps failed trace
           = (Inl exc, trace @ map (PipInstall python_exe) (take n deps))"
proof (induction deps arbitrary: trace failed)
  case Nil
  then show ?case by simp
next
  case (Cons dep deps)
  show ?case
  proof (cases "os (length trace)")
    case NotStarted
    then have "install_loop os python_exe (dep # deps) failed trace
        = (Inl FileNotFoundError, trace @ map (PipInstall python_exe) (take 1 (dep # deps)))"
      by (simp add: check_call_def)
    then show ?thesis by blast
  next
    case (Exited rc)
    from Cons.prems Exited obtain i where "i < length (dep # deps)" "os (length trace + i) = NotStarted" "i \<noteq> 0"
      by (metis add.right_neutral proc_result.distinct(1))
    then have ex: "\<exists>j < length deps. os (length (trace @ [PipInstall python_exe dep]) + j) = NotStarted"
      by (cases i) auto
    let ?failed = "if rc = 0 then failed else failed @ [dep]"
    from Cons.IH [OF ex, of ?failed] obtain exc n where
      "install_loop os python_exe deps ?failed (trace @ [PipInstall python_exe dep])
        = (Inl exc, (trace @ [PipInstall python_exe dep]) @ map (PipInstall python_exe) (take n deps))"
      by blast
    with Exited have "install_loop os python_exe (dep # deps) failed trace
        = (Inl exc, trace @ map (PipInstall python_exe) (take (Suc n) (dep # deps)))"
      by (cases "rc = 0") (simp_all add: check_call_def)
    then show ?thesis by blast
  qed
qed

lemma no_run_in_installs: "RunProject python project_file \<notin> set (map (PipInstall p) deps)"
  by auto

lemma run_in_temp_venv_ok:
  assumes "\<forall>i \<le> length required. subprocess e i = Exited 0"
  shows "\<exists>ex. run_in_temp_venv e required project_file [] =
     (ex, CreateVenv (sys_executable e) (temp_venv_path e)
          # map (PipInstall (venv_python (os_name e) (temp_venv_path e))) required
          @ [RunProject (venv_python (os_name e) (temp_venv_path e)) project_file])"
proof -
  let ?vp = "temp_venv_path e"
  let ?py = "venv_python (os_name e) ?vp"
  let ?c = "CreateVenv (sys_executable e) ?vp"
  from assms have "subprocess e (length ([] :: action list)) = Exited 0" by simp
  then have c: "check_call (subprocess e) ?c [] = (Inr (), [?c])"
    using check_call_ok [of "subprocess e" "[]" ?c] by simp
  from assms have "\<forall>i < length required. subprocess e (length [?c] + i) = Exited 0" by simp
  then have "install_each (subprocess e) ?py required [?c] = (Inr (), [?c] @ map (PipInstall ?py) required)"
    by (rule install_each_ok)
  then have i: "install_each (subprocess e) ?py required [?c] = (Inr (), ?c # map (PipInstall ?py) required)"
    by simp
  obtain r where r: "check_call (subprocess e) (RunProject ?py project_file) (?c # map (PipInstall ?py) required)
      = (r, ?c # map (PipInstall ?py) required @ [RunProject ?py project_file])"
    by (simp add: check_call_def)
  show ?thesis
    by (cases r) (simp_all add: run_in_temp_venv_def Let_def c i r)
qed

lemma run_in_temp_venv_fail:
  assumes "\<exists>i \<le> length required. subprocess e i \<noteq> Exited 0"
  shows "\<exists>ex trace. run_in_temp_venv e required project_file [] = (ex, trace)
     \<and> ex \<noteq> Returned \<and> ex \<noteq> Exit 0
     \<and> (\<forall>python file. RunProject python file \<notin> set trace)"
proof -
  let ?vp = "temp_venv_path e"
  let ?py = "venv_python (os_name e) ?vp"
  let ?c = "CreateVenv (sys_executable e) ?vp"
  show ?thesis
  proof (cases "subprocess e 0 = Exited 0")
    case False
    then obtain exc where "check_call (subprocess e) ?c [] = (Inl exc, [?c])"
      using check_call_fail [of "subprocess e" "[]" ?c] by auto
    then have "run_in_temp_venv e required project_file [] = (on_called_process_error exc, [?c])"
      unfolding run_in_temp_venv_def Let_def by simp
    then show ?thesis
      using on_called_process_error_failed by auto
  next
    case True
    then have c: "check_call (subprocess e) ?c [] = (Inr (), [?c])"
      using check_call_ok [of "subprocess e" "[]" ?c] by simp
    from assms True obtain i where "i \<le> length required" "subprocess e i \<noteq> Exited 0" "i \<noteq> 0"
      by metis
    then have "\<exists>j < length required. subprocess e (length [?c] + j) \<noteq> Exited 0"
      by (cases i) (auto simp: less_eq_Suc_le)
    from install_each_fail [OF this] obtain exc n where
      "install_each (subprocess e) ?py required [?c] = (Inl exc, [?c] @ map (PipInstall ?py) (take n required))"
      by blast
    then have i: "install_each (subprocess e) ?py required [?c] = (Inl exc, ?c # map (PipInstall ?py) (take n required))"
      by simp
    have "run_in_temp_venv e required project_file []
        = (on_called_process_error exc, ?c # map (PipInstall ?py) (take n required))"
      by (simp add: run_in_temp_venv_def Let_def c i)
    then show ?thesis
      using on_called_process_error_failed by auto
  qed
qed

lemma create_venv_no_run:
  "create_venv e required [] = (ex, trace) \<Longrightarrow> RunProject python file \<notin> set trace"
proof -
  assume a: "create_venv e required [] = (ex, trace)"
  let ?vp = "joinpath (os_name e) (cwd e) ''venv''"
  let ?py = "venv_python (os_name e) ?vp"
  let ?c = "CreateVenv (sys_executable e) ?vp"
  have t: "\<exists>n. snd (install_each (subprocess e) ?py required [?c]) = [?c] @ map (PipInstall ?py) (take n required)"
  proof (cases "\<forall>i < length required. subprocess e (length [?c] + i) = Exited 0")
    case True
    from install_each_ok [OF this, of ?py] show ?thesis
      by (metis snd_conv take_all order_refl)
  next
    case False
    then have "\<exists>i < length required. subprocess e (length [?c] + i) \<noteq> Exited 0" by blast
    from install_each_fail [OF this, of ?py] show ?thesis
      by (metis snd_conv)
  qed
  then obtain n where n: "snd (install_each (subprocess e) ?py required [?c]) = [?c] @ map (PipInstall ?py) (take n required)"
    by blast
  have "trace = [] \<or> trace = [?c] \<or> trace = [?c] @ map (PipInstall ?py) (take n required)"
    using a n unfolding create_venv_def Let_def check_call_def
    by (auto split: if_splits prod.splits sum.splits proc_result.splits)
  then show ?thesis by auto
qed

lemma install_dependencies_all_ok:
  assumes "\<forall>i < length deps. os i = Exited 0"
  shows "install_dependencies os deps python_exe [] = (Inr [], map (PipInstall python_exe) deps)"
proof -
  from assms have "\<forall>i < length deps. os (length ([] :: action list) + i) \<noteq> NotStarted" by simp
  from install_loop_spec [OF this, of python_exe "[]"]
  have "install_dependencies os deps python_exe [] =
      (Inr (nths deps {i. install_failed (os i)}), map (PipInstall python_exe) deps)"
    by (simp add: install_dependencies_def)
  moreover have "nths deps {i. install_failed (os i)} = []"
    unfolding nths_empty_iff using assms by (simp add: install_failed_def)
  ultimately show ?thesis by simp
qed

lemma install_dependencies_some_fail:
  assumes "\<exists>i < length deps. os i \<noteq> Exited 0"
  shows "\<exists>r trace. install_dependencies os deps python_exe [] = (r, trace)
      \<and> r \<noteq> Inr [] \<and> (\<forall>python file. RunProject python file \<notin> set trace)"
proof (cases "\<exists>i < length deps. os i = NotStarted")
  case True
  then have "\<exists>i < length deps. os (length ([] :: action list) + i) = NotStarted" by simp
  from install_loop_not_started [OF this, of python_exe "[]"] obtain exc n where
    "install_dependencies os deps python_exe [] = (Inl exc, map (PipInstall python_exe) (take n deps))"
    by (auto simp: install_dependencies_def)
  then show ?thesis by auto
next
  case False
  then have "\<forall>i < length deps. os (length ([] :: action list) + i) \<noteq> NotStarted" by simp
  from install_loop_spec [OF this, of python_exe "[]"]
  have eq: "install_dependencies os deps python_exe [] =
      (Inr (nths deps {i. install_failed (os i)}), map (PipInstall python_exe) deps)"
    by (simp add: install_dependencies_def)
  from assms obtain i where i: "i < length deps" "os i \<noteq> Exited 0" by blast
  with False have "install_failed (os i)"
    by (cases "os i") (auto simp: install_failed_def)
  with i have "nths deps {i. install_failed (os i)} \<noteq> []"
    unfolding nths_empty_iff by auto
  with eq show ?thesis by auto
qed

lemma run_project_trace:
  "\<exists>ex. run_project os project_file python_exe trace
     = (ex, trace @ [RunProject python_exe project_file])"
  by (simp add: run_project_def check_call_def split: proc_result.splits)

lemma default_flow_runs:
  assumes flags: "\<not> generate_requirements a" "\<not> temp_venv a" "\<not> venv a" "\<not> dry_run a"
    and go: "missing_deps (reconcile s) = [] \<or> accepted a e"
    and ok: "\<forall>i < length (missing_deps (reconcile s)). subprocess e i = Exited 0"
    and pf: "project_file_exists e"
  shows "\<exists>ex. main a e s project_file =
     (ex, map (PipInstall (sys_executable e)) (missing_deps (reconcile s))
          @ [RunProject (sys_executable e) project_file], None)"
proof -
  let ?m = "missing_deps (reconcile s)"
  let ?exe = "sys_executable e"
  let ?tr = "map (PipInstall ?exe) ?m"
  have inst: "install_dependencies (subprocess e) ?m ?exe [] = (Inr [], ?tr)"
    using ok by (rule install_dependencies_all_ok)
  obtain ex where run: "run_project (subprocess e) project_file ?exe ?tr
      = (ex, ?tr @ [RunProject ?exe project_file])"
    using run_project_trace by blast
  show ?thesis
  proof (cases "?m = []")
    case True
    with run flags pf show ?thesis
      by (auto simp: main_def Let_def)
  next
    case False
    with go have "accepted a e" by simp
    with False run flags pf inst show ?thesis
      by (auto simp: main_def Let_def accepted_def)
  qed
qed

lemma default_flow_stops:
  assumes flags: "\<not> generate_requirements a" "\<not> temp_venv a" "\<not> venv a" "\<not> dry_run a"
    and stop: "(missing_deps (reconcile s) \<noteq> [] \<and> \<not> accepted a e)
        \<or> (\<exists>i < length (missing_deps (reconcile s)). subprocess e i \<noteq> Exited 0)
        \<or> \<not> project_file_exists e"
  shows "\<exists>ex trace. main a e s project_file = (ex, trace, None)
     \<and> ex \<noteq> Returned \<and> ex \<noteq> Exit 0
     \<and> (\<forall>python file. RunProject python file \<notin> set trace)"
proof -
  let ?m = "missing_deps (reconcile s)"
  let ?exe = "sys_executable e"
  let ?tr = "map (PipInstall ?exe) ?m"
  show ?thesis
  proof (cases "?m = []")
    case True
    with stop have "\<not> project_file_exists e" by simp
    with True flags show ?thesis
      by (simp add: main_def Let_def)
  next
    case False
    show ?thesis
    proof (cases "accepted a e")
      case nacc: False
      with False flags show ?thesis
        by (auto simp: main_def Let_def accepted_def split: option.splits)
    next
      case True
      show ?thesis
      proof (cases "\<exists>i < length ?m. subprocess e i \<noteq> Exited 0")
        case bad: True
        from install_dependencies_some_fail [OF this, of ?exe] obtain r trace where
          r: "install_dependencies (subprocess e) ?m ?exe [] = (r, trace)" "r \<noteq> Inr []"
          "\<forall>python file. RunProject python file \<notin> set trace"
          by blast
        with False True flags show ?thesis
          by (cases r) (auto simp: main_def Let_def accepted_def)
      next
        case good: False
        then have "\<forall>i < length ?m. subprocess e i = Exited 0" by blast
        then have inst: "install_dependencies (subprocess e) ?m ?exe [] = (Inr [], ?tr)"
          by (rule install_dependencies_all_ok)
        from stop False True good have "\<not> project_file_exists e" by blast
        with False True flags inst show ?thesis
          by (auto simp: main_def Let_def accepted_def)
      qed
    qed
  qed
qed

lemma temp_flow_main:
  assumes "\<not> generate_requirements a" "temp_venv a"
  shows "main a e s project_file =
     (case run_in_temp_venv e (required_deps s) project_file [] of
        (Returned, trace) \<Rightarrow> (Exit 0, trace, None)
      | (ex, trace) \<Rightarrow> (ex, trace, None))"
  using assms by (simp add: main_def)

subsection \<open>C8: the project runs only after its environment is ready\<close>

text \<open>
  C8. The project file is never run before the provisioning is complete. If a run of
  \<open>main\<close> starts the project file at all, then in the flow \<^verbatim>\<open>--temp-venv\<close> the
  subprocesses of the run are, in this order, the creation of the environment, one
  installation into it for every required dependency, and the project file, and the
  creation and every installation ended with return code 0; in the default flow they are
  one installation for every missing dependency and then the project file, every
  installation ended with return code 0, and either nothing was missing or the user
  accepted. If an installation fails, or the user declines while something is missing, the
  run ends with an exit status other than 0 or with an exception, and no subprocess of it
  is the project file.
\<close>

theorem project_runs_after_provisioning:
  assumes m: "main a e s project_file = (ex, trace, written)"
  shows
   "(RunProject python file \<in> set trace \<longrightarrow>
       \<not> generate_requirements a \<and>
       (if temp_venv a
        then trace = CreateVenv (sys_executable e) (temp_venv_path e)
                 # map (PipInstall (venv_python (os_name e) (temp_venv_path e))) (required_deps s)
                 @ [RunProject (venv_python (os_name e) (temp_venv_path e)) project_file]
             \<and> (\<forall>i \<le> length (required_deps s). subprocess e i = Exited 0)
        else \<not> venv a \<and> \<not> dry_run a
             \<and> trace = map (PipInstall (sys_executable e)) (missing_deps (reconcile s))
                 @ [RunProject (sys_executable e) project_file]
             \<and> (missing_deps (reconcile s) = [] \<or> accepted a e)
             \<and> (\<forall>i < length (missing_deps (reconcile s)). subprocess e i = Exited 0)))
    \<and> (\<not> generate_requirements a \<and> temp_venv a
          \<and> (\<exists>i. 0 < i \<and> i \<le> length (required_deps s) \<and> subprocess e i \<noteq> Exited 0)
        \<longrightarrow> ex \<noteq> Returned \<and> ex \<noteq> Exit 0 \<and> (\<forall>python file. RunProject python file \<notin> set trace))
    \<and> (\<not> generate_requirements a \<and> \<not> temp_venv a \<and> \<not> venv a \<and> \<not> dry_run a
          \<and> missing_deps (reconcile s) \<noteq> []
          \<and> (declined a e
               \<or> (accepted a e
                    \<and> (\<exists>i < length (missing_deps (reconcile s)). subprocess e i \<noteq> Exited 0)))
        \<longrightarrow> ex \<noteq> Returned \<and> ex \<noteq> Exit 0 \<and> (\<forall>python file. RunProject python file \<notin> set trace))"
proof (intro conjI impI)
  assume run: "RunProject python file \<in> set trace"
  show g: "\<not> generate_requirements a"
    using m run by (auto simp: main_def)
  show "if temp_venv a
        then trace = CreateVenv (sys_executable e) (temp_venv_path e)
                 # map (PipInstall (venv_python (os_name e) (temp_venv_path e))) (required_deps s)
                 @ [RunProject (venv_python (os_name e) (temp_venv_path e)) project_file]
             \<and> (\<forall>i \<le> length (required_deps s). subprocess e i = Exited 0)
        else \<not> venv a \<and> \<not> dry_run a
             \<and> trace = map (PipInstall (sys_executable e)) (missing_deps (reconcile s))
                 @ [RunProject (sys_executable e) project_file]
             \<and> (missing_deps (reconcile s) = [] \<or> accepted a e)
             \<and> (\<forall>i < length (missing_deps (reconcile s)). subprocess e i = Exited 0)"
  proof (cases "temp_venv a")
    case True
    note tm = temp_flow_main [OF g True, of e s project_file]
    have ok: "\<forall>i \<le> length (required_deps s). subprocess e i = Exited 0"
    proof (rule ccontr)
      assume "\<not> ?thesis"
      then have "\<exists>i \<le> length (required_deps s). subprocess e i \<noteq> Exited 0" by blast
      from run_in_temp_venv_fail [OF this, of project_file] obtain ex' trace' where
        "run_in_temp_venv e (required_deps s) project_file [] = (ex', trace')"
        "ex' \<noteq> Returned" "\<forall>python file. RunProject python file \<notin> set trace'"
        by blast
      with m tm have "trace = trace'" by (cases ex') auto
      with run \<open>\<forall>python file. RunProject python file \<notin> set trace'\<close> show False by blast
    qed
    from run_in_temp_venv_ok [OF ok, of project_file] obtain ex' where
      "run_in_temp_venv e (required_deps s) project_file [] =
         (ex', CreateVenv (sys_executable e) (temp_venv_path e)
          # map (PipInstall (venv_python (os_name e) (temp_venv_path e))) (required_deps s)
          @ [RunProject (venv_python (os_name e) (temp_venv_path e)) project_file])"
      by blast
    with m tm have "trace = CreateVenv (sys_executable e) (temp_venv_path e)
          # map (PipInstall (venv_python (os_name e) (temp_venv_path e))) (required_deps s)
          @ [RunProject (venv_python (os_name e) (temp_venv_path e)) project_file]"
      by (cases ex') auto
    with ok True show ?thesis by simp
  next
    case False
    have v: "\<not> venv a"
    proof
      assume "venv a"
      with g False m obtain ex' where "create_venv e (required_deps s) [] = (ex', trace)"
        by (auto simp: main_def split: prod.splits)
      from create_venv_no_run [OF this] run show False by blast
    qed
    have d: "\<not> dry_run a"
      using m run g False v by (auto simp: main_def Let_def)
    have cond: "(missing_deps (reconcile s) = [] \<or> accepted a e)
        \<and> (\<forall>i < length (missing_deps (reconcile s)). subprocess e i = Exited 0)
        \<and> project_file_exists e"
    proof (rule ccontr)
      assume "\<not> ?thesis"
      then have "(missing_deps (reconcile s) \<noteq> [] \<and> \<not> accepted a e)
        \<or> (\<exists>i < length (missing_deps (reconcile s)). subprocess e i \<noteq> Exited 0)
        \<or> \<not> project_file_exists e"
        by blast
      from default_flow_stops [OF g False v d this, of project_file] m run
      show False by auto
    qed
    then have "\<exists>ex. main a e s project_file =
       (ex, map (PipInstall (sys_executable e)) (missing_deps (reconcile s))
          @ [RunProject (sys_executable e) project_file], None)"
      using default_flow_runs [OF g False v d, of s e project_file] by blast
    with m have "trace = map (PipInstall (sys_executable e)) (missing_deps (reconcile s))
          @ [RunProject (sys_executable e) project_file]"
      by auto
    with False v d cond show ?thesis by simp
  qed
next
  assume a: "\<not> generate_requirements a \<and> temp_venv a
          \<and> (\<exists>i. 0 < i \<and> i \<le> length (required_deps s) \<and> subprocess e i \<noteq> Exited 0)"
  then have "\<exists>i \<le> length (required_deps s). subprocess e i \<noteq> Exited 0" by blast
  from run_in_temp_venv_fail [OF this, of project_file] obtain ex' trace' where
    r: "run_in_temp_venv e (required_deps s) project_file [] = (ex', trace')"
    "ex' \<noteq> Returned" "ex' \<noteq> Exit 0" "\<forall>python file. RunProject python file \<notin> set trace'"
    by blast
  from a have "\<not> generate_requirements a" "temp_venv a" by simp_all
  from temp_flow_main [OF this, of e s project_file] m r
  have e: "ex = ex' \<and> trace = trace'"
    by (cases ex') auto
  with r show "ex \<noteq> Returned" "ex \<noteq> Exit 0" "\<forall>python file. RunProject python file \<notin> set trace"
    by simp_all
next
  assume a: "\<not> generate_requirements a \<and> \<not> temp_venv a \<and> \<not> venv a \<and> \<not> dry_run a
          \<and> missing_deps (reconcile s) \<noteq> []
          \<and> (declined a e
               \<or> (accepted a e
                    \<and> (\<exists>i < length (missing_deps (reconcile s)). subprocess e i \<noteq> Exited 0)))"
  then have flags: "\<not> generate_requirements a" "\<not> temp_venv a" "\<not> venv a" "\<not> dry_run a"
    by simp_all
  have nd: "declined a e \<Longrightarrow> \<not> accepted a e"
    by (auto simp: declined_def accepted_def)
  from a nd have "(missing_deps (reconcile s) \<noteq> [] \<and> \<not> accepted a e)
        \<or> (\<exists>i < length (missing_deps (reconcile s)). subprocess e i \<noteq> Exited 0)
        \<or> \<not> project_file_exists e"
    by blast
  from default_flow_stops [OF flags this, of project_file] m
  show "ex \<noteq> Returned" "ex \<noteq> Exit 0" "\<forall>python file. RunProject python file \<notin> set trace"
    by auto
qed


lemma demo_missing: "missing_deps (reconcile demo_locals) = [''numpy'']"
  by (simp add: reconcile_def demo_locals_def demo_lower)

lemma demo_answer: "lower (strip ''  Y '') = ''y''"
  by (simp add: strip_def isspace_def lower_def lower_char_def)

lemma demo_run:
  "main demo_args demo_env demo_locals ''main.py''
     = (Returned, [PipInstall ''python'' ''numpy'', RunProject ''python'' ''main.py''], None)"
  by (simp add: main_def Let_def demo_missing demo_answer install_dependencies_def
      check_call_def run_project_def demo_args_def demo_env_def)

lemma demo_failed_run:
  "main demo_args (demo_env\<lparr>subprocess := (\<lambda>i. Exited 1)\<rparr>) demo_locals ''main.py''
     = (Exit 1, [PipInstall ''python'' ''numpy''], None)"
  by (simp add: main_def Let_def demo_missing demo_answer install_dependencies_def
      check_call_def run_project_def demo_args_def demo_env_def)

theorem project_runs_after_provisioning_witness:
  "main demo_args demo_env demo_locals ''main.py''
     = (Returned, [PipInstall ''python'' ''numpy'', RunProject ''python'' ''main.py''], None)
   \<and> missing_deps (reconcile demo_locals) = [''numpy'']
   \<and> accepted demo_args demo_env
   \<and> subprocess demo_env 0 = Exited 0
   \<and> main demo_args (demo_env\<lparr>subprocess := (\<lambda>i. Exited 1)\<rparr>) demo_locals ''main.py''
       = (Exit 1, [PipInstall ''python'' ''numpy''], None)
   \<and> RunProject ''python'' ''main.py'' \<notin> set [PipInstall ''python'' ''numpy'']"
proof -
  have r: "RunProject ''python'' ''main.py''
      \<in> set [PipInstall ''python'' ''numpy'', RunProject ''python'' ''main.py'']"
    by simp
  from project_runs_after_provisioning [OF demo_run, of "''python''" "''main.py''"] r
  have a: "accepted demo_args demo_env" and b: "subprocess demo_env 0 = Exited 0"
    by (simp_all add: demo_missing demo_args_def)
  have acc: "accepted demo_args (demo_env\<lparr>subprocess := (\<lambda>i. Exited 1)\<rparr>)"
    using a by (simp add: accepted_def demo_env_def)
  from project_runs_after_provisioning [OF demo_failed_run, of "''python''" "''main.py''"] acc
  have "RunProject ''python'' ''main.py'' \<notin> set [PipInstall ''python'' ''numpy'']"
    by (simp add: demo_missing demo_args_def)
  with a b show ?thesis
    using demo_run demo_failed_run demo_missing by simp
qed

end
